theory Spec2Isabelle
  imports Main "HOL-Library.Sublist" "HOL-Library.AList"
begin

section \<open>MinuetWeb: a static-content request handler\<close>

text \<open>
  A shallow embedding of \<^verbatim>\<open>src/index.ts\<close> (class \<^verbatim>\<open>MinuetWeb\<close>).
  The instance, the disk and the HTTP response are explicit values: every method takes
  the instance and returns the updated one; a JavaScript exception that leaves a method
  is the \<open>Inl\<close> branch of a sum.

  A JavaScript string is the list of its UTF-16 code units, one \<open>char\<close> for each, so
  that \<open>length\<close>, \<open>drop\<close> and \<open>take\<close> count what \<^verbatim>\<open>.length\<close> and
  \<^verbatim>\<open>substring\<close> count. A \<open>char\<close> has eight bits: the strings covered are those
  whose code units are below 256, which is what Node's HTTP parser delivers in
  \<^verbatim>\<open>req.url\<close>; a mount key or directory name with a code unit above that is outside
  the model. The content of a file or \<^verbatim>\<open>Buffer\<close> is the list of its bytes, and where
  the code turns one into the other (\<^verbatim>\<open>toString\<close> on the listing template, writing
  the text \<^verbatim>\<open>ERROR\<close>) the two lists are taken to be the same, as they are for ASCII.
\<close>

subsection \<open>JavaScript strings\<close>

text \<open>\<^verbatim>\<open>s.split(sep).join(rep)\<close> for a non-empty separator: the occurrences of
  \<open>sep\<close> are found from the left and do not overlap.\<close>

function split_join :: "string \<Rightarrow> string \<Rightarrow> string \<Rightarrow> string" where
  "split_join sep rep [] = []"
| "split_join sep rep (c # cs) =
     (if sep \<noteq> [] \<and> prefix sep (c # cs)
      then rep @ split_join sep rep (drop (length sep - 1) cs)
      else c # split_join sep rep cs)"
  by pat_completeness auto
termination
  by (relation "measure (\<lambda>(sep, rep, s). length s)") auto

text \<open>\<^verbatim>\<open>s.split("?")[0]\<close>: the part before the first separator character.\<close>

definition split_first :: "char \<Rightarrow> string \<Rightarrow> string" where
  "split_first c s = takeWhile (\<lambda>x. x \<noteq> c) s"

text \<open>\<^verbatim>\<open>s.split("/")\<close> for a one-character separator.\<close>

fun split_on :: "char \<Rightarrow> string \<Rightarrow> string list" where
  "split_on c [] = [[]]"
| "split_on c (x # xs) =
     (if x = c then [] # split_on c xs
      else (case split_on c xs of
              [] \<Rightarrow> [[x]]
            | s # ss \<Rightarrow> (x # s) # ss))"

text \<open>\<^verbatim>\<open>s[s.length - 1] == "/"\<close>: false on the empty string, where the index is
  out of range and the read gives \<^verbatim>\<open>undefined\<close>.\<close>

definition ends_with_slash :: "string \<Rightarrow> bool" where
  "ends_with_slash s = (s \<noteq> [] \<and> last s = CHR ''/'')"

text \<open>\<^verbatim>\<open>a.indexOf(b) === 0\<close>: \<open>b\<close> occurs at the very start of \<open>a\<close>.\<close>

definition indexOf_is_0 :: "string \<Rightarrow> string \<Rightarrow> bool" where
  "indexOf_is_0 a b = prefix b a"

subsection \<open>Node's path module (POSIX flavour)\<close>

definition strip_trailing_slashes :: "string \<Rightarrow> string" where
  "strip_trailing_slashes p = rev (dropWhile (\<lambda>c. c = CHR ''/'') (rev p))"

definition basename :: "string \<Rightarrow> string" where
  "basename p = rev (takeWhile (\<lambda>c. c \<noteq> CHR ''/'') (rev (strip_trailing_slashes p)))"

text \<open>\<^verbatim>\<open>path.extname\<close>: from the last dot of the last path portion to its end; empty
  when there is no dot, when the only dot is the first character, or for \<^verbatim>\<open>..\<close>.\<close>

definition extname :: "string \<Rightarrow> string" where
  "extname p =
     (let b = basename p in
      if CHR ''.'' \<notin> set b then []
      else let ext = CHR ''.'' # rev (takeWhile (\<lambda>c. c \<noteq> CHR ''.'') (rev b)) in
        if length ext = length b then []
        else if b = ''..'' then []
        else ext)"

text \<open>\<^verbatim>\<open>path.dirname\<close>: trailing slashes and the last portion are dropped; the slash
  search never looks at index 0.\<close>

definition dirname :: "string \<Rightarrow> string" where
  "dirname p =
     (case p of
        [] \<Rightarrow> ''.''
      | c # cs \<Rightarrow>
          (let hasRoot = (c = CHR ''/'');
               r = rev (dropWhile (\<lambda>x. x \<noteq> CHR ''/'')
                         (dropWhile (\<lambda>x. x = CHR ''/'') (rev cs)))
           in if r = [] then (if hasRoot then ''/'' else ''.'')
              else if hasRoot \<and> length r = 1 then ''//''
              else take (length r) p))"

subsection \<open>The disk\<close>

text \<open>
  The disk is a finite tree of directories and regular files; the working directory is
  its root, and a path that starts with a slash is read from the same root. A path is
  cut at its slashes and followed portion by portion on the tree: an empty portion
  and \<^verbatim>\<open>.\<close> stay where they are, \<^verbatim>\<open>..\<close> goes to the parent (the root is its own
  parent), a name goes to the entry of that name. Each of these steps needs a
  directory to start from: any portion after a regular file, also an empty one (a
  trailing slash), fails, as does a name the directory does not have. The empty path
  names nothing.
\<close>

datatype fsnode = File string | Dir "(string \<times> fsnode) list"

fun isFile :: "fsnode \<Rightarrow> bool" where
  "isFile (File c) = True"
| "isFile (Dir es) = False"

text \<open>\<open>walk cur parents segs\<close>: \<open>cur\<close> is the node reached, \<open>parents\<close> the
  directories above it, nearest first.\<close>

fun walk :: "fsnode \<Rightarrow> fsnode list \<Rightarrow> string list \<Rightarrow> fsnode option" where
  "walk cur parents [] = Some cur"
| "walk (File c) parents (s # ss) = None"
| "walk (Dir es) parents (s # ss) =
     (if s = [] \<or> s = ''.'' then walk (Dir es) parents ss
      else if s = ''..'' then
        (case parents of
           [] \<Rightarrow> walk (Dir es) [] ss
         | p # ps \<Rightarrow> walk p ps ss)
      else (case map_of es s of
              None \<Rightarrow> None
            | Some n \<Rightarrow> walk n (Dir es # parents) ss))"

definition lookup_path :: "fsnode \<Rightarrow> string \<Rightarrow> fsnode option" where
  "lookup_path root p =
     (if p = [] then None else walk root [] (split_on CHR ''/'' p))"

definition existsSync :: "fsnode \<Rightarrow> string \<Rightarrow> bool" where
  "existsSync root p = (lookup_path root p \<noteq> None)"

text \<open>\<^verbatim>\<open>fs.statSync(p).isFile()\<close>, read only after \<^verbatim>\<open>existsSync\<close> answered true.\<close>

definition stat_isFile :: "fsnode \<Rightarrow> string \<Rightarrow> bool" where
  "stat_isFile root p = (case lookup_path root p of Some n \<Rightarrow> isFile n | None \<Rightarrow> False)"

text \<open>\<^verbatim>\<open>fs.readFileSync\<close> throws on a missing path and on a directory: \<open>None\<close>.\<close>

definition readFileSync :: "fsnode \<Rightarrow> string \<Rightarrow> string option" where
  "readFileSync root p =
     (case lookup_path root p of Some (File c) \<Rightarrow> Some c | _ \<Rightarrow> None)"

text \<open>\<^verbatim>\<open>fs.readdirSync(p, {withFileTypes: true})\<close> throws unless the path is a
  directory: \<open>None\<close>.\<close>

definition readdirSync :: "fsnode \<Rightarrow> string \<Rightarrow> (string \<times> fsnode) list option" where
  "readdirSync root p =
     (case lookup_path root p of Some (Dir es) \<Rightarrow> Some es | _ \<Rightarrow> None)"

subsection \<open>JavaScript objects used as dictionaries\<close>

text \<open>
  \<^verbatim>\<open>rootDir\<close>, \<^verbatim>\<open>mimes\<close>, \<^verbatim>\<open>headers\<close> and \<^verbatim>\<open>buffers\<close> are plain objects. Their
  keys are enumerated by \<^verbatim>\<open>Object.keys\<close> in insertion order, so an object is an
  association list of its own properties: \<open>AList.update\<close> assigns one (in place when
  the key exists, at the end otherwise). Own keys are taken not to be array indices
  (which \<^verbatim>\<open>Object.keys\<close> would list first), and no assignment is made under the
  name \<^verbatim>\<open>__proto__\<close> (which would replace the prototype instead).
\<close>

type_synonym 'v obj = "(string \<times> 'v) list"

definition keys :: "'v obj \<Rightarrow> string list" where
  "keys ob = map fst ob"

text \<open>
  A read \<^verbatim>\<open>ob[k]\<close> that finds no own property goes on to \<^verbatim>\<open>Object.prototype\<close>.
  Its members are functions, and the object itself under \<^verbatim>\<open>__proto__\<close>; where such
  a value is used as a string (a header value) it is the text \<^verbatim>\<open>String\<close> gives for
  it, as V8 prints it, and that text stands for the value here.
\<close>

definition Object_prototype :: "string obj" where
  "Object_prototype =
     [(''constructor'', ''function Object() { [native code] }''),
      (''__defineGetter__'', ''function __defineGetter__() { [native code] }''),
      (''__defineSetter__'', ''function __defineSetter__() { [native code] }''),
      (''hasOwnProperty'', ''function hasOwnProperty() { [native code] }''),
      (''__lookupGetter__'', ''function __lookupGetter__() { [native code] }''),
      (''__lookupSetter__'', ''function __lookupSetter__() { [native code] }''),
      (''isPrototypeOf'', ''function isPrototypeOf() { [native code] }''),
      (''propertyIsEnumerable'', ''function propertyIsEnumerable() { [native code] }''),
      (''toString'', ''function toString() { [native code] }''),
      (''valueOf'', ''function valueOf() { [native code] }''),
      (''__proto__'', ''[object Object]''),
      (''toLocaleString'', ''function toLocaleString() { [native code] }'')]"

definition get_property :: "string obj \<Rightarrow> string \<Rightarrow> string option" where
  "get_property ob k =
     (case map_of ob k of
        Some v \<Rightarrow> Some v
      | None \<Rightarrow> map_of Object_prototype k)"

text \<open>What a read of the buffer store gives: a stored \<^verbatim>\<open>Buffer\<close>, or an inherited
  member, which is truthy but is not a \<^verbatim>\<open>Buffer\<close>.\<close>

datatype loaded = Buffer string | Member string

definition read_buffers :: "string obj \<Rightarrow> string \<Rightarrow> loaded option" where
  "read_buffers ob k =
     (case map_of ob k of
        Some b \<Rightarrow> Some (Buffer b)
      | None \<Rightarrow> (if k \<in> set (keys Object_prototype) then Some (Member k) else None))"

text \<open>A property read used as a condition: a missing property and the empty string
  are falsy.\<close>

definition truthy :: "string option \<Rightarrow> bool" where
  "truthy v = (case v of None \<Rightarrow> False | Some s \<Rightarrow> s \<noteq> [])"

subsection \<open>The instance\<close>

datatype rootdir = Single string | Mounted "string obj"

datatype notfound = NFBool bool | NFPage string

text \<open>The exceptions: a \<^verbatim>\<open>TypeError\<close>, a failed file-system call, and the three
  ways \<^verbatim>\<open>res.setHeader\<close> fails.\<close>

datatype js_error = TypeError | FsError | HeadersSent | InvalidHttpToken | InvalidChar

record minuet_web =
  url :: string
  rootDir :: rootdir
  mimes :: "string obj"
  headers :: "string obj"
  buffering :: bool
  bufferingMaxSize :: int
  directReading :: bool
  notFound :: notfound
  directoryIndexs :: "string list"
  listNavigator :: bool
  logAccess :: "string option"
  buffers :: "string obj"
  logger :: bool

definition DefaultMimes :: "string obj" where
  "DefaultMimes =
     [(''jpg'', ''image/jpeg''), (''png'', ''image/png''), (''gif'', ''image/jig''),
      (''tif'', ''image/tiff''), (''tiff'', ''image/tiff''), (''svg'', ''image/svg+xml''),
      (''ico'', ''image/vnd.microsoft.icon''), (''mp3'', ''audio/mp3''),
      (''aac'', ''audio/aac''), (''txt'', ''text/plain''), (''css'', ''text/css''),
      (''js'', ''text/javascript''), (''html'', ''text/html''), (''htm'', ''text/html''),
      (''xml'', ''text/xml''), (''woff'', ''font/woff''), (''woff2'', ''font/woff2''),
      (''ttf'', ''font/ttf''), (''zip'', ''application/zip''), (''bz'', ''application/x-bzip''),
      (''gz'', ''application/gzip''), (''7z'', ''application/x-7z-compressed''),
      (''csv'', ''text/csv'')]"

definition notFound_key :: string where
  "notFound_key = ''#notfound''"

definition listNavigator_key :: string where
  "listNavigator_key = ''#listNavigator''"

text \<open>The field initialisers of the class (before the constructor body runs).\<close>

definition initial :: minuet_web where
  "initial = \<lparr> url = ''/'', rootDir = Single ''htdocs'', mimes = DefaultMimes,
     headers = [], buffering = True, bufferingMaxSize = 300000, directReading = False,
     notFound = NFBool False, directoryIndexs = [], listNavigator = False,
     logAccess = None, buffers = [], logger = False \<rparr>"

text \<open>\<^verbatim>\<open>if (typeof this.rootDir == "string") this.rootDir = { "/" : this.rootDir }\<close>\<close>

definition mounts_of :: "rootdir \<Rightarrow> string obj" where
  "mounts_of rd = (case rd of Single d \<Rightarrow> [(''/'', d)] | Mounted ms \<Rightarrow> ms)"

definition normalize_rootDir :: "minuet_web \<Rightarrow> minuet_web" where
  "normalize_rootDir st = st\<lparr>rootDir := Mounted (mounts_of (rootDir st))\<rparr>"

subsection \<open>Mime lookup\<close>

definition getMime :: "minuet_web \<Rightarrow> string \<Rightarrow> string option" where
  "getMime st target = get_property (mimes st) (drop 1 (extname target))"

definition hasMine :: "minuet_web \<Rightarrow> string \<Rightarrow> bool" where
  "hasMine st target =
     (let ext = drop 1 (extname target) in
      if ext = [] then False
      else if \<not> truthy (get_property (mimes st) ext) then False
      else True)"

subsection \<open>The buffer store\<close>

text \<open>The loop of \<^verbatim>\<open>addBuffer\<close>: \<open>fileName\<close> starts undefined (\<open>None\<close>) and every
  mount whose directory starts the path overwrites it.\<close>

definition buffer_key :: "string \<Rightarrow> string \<Rightarrow> string \<Rightarrow> string" where
  "buffer_key burl dir filePath =
     (let url2 = (if burl = ''/'' then [] else burl)
      in split_join ''//'' ''/'' (url2 @ drop (length dir) filePath))"

fun addBuffer_loop :: "string obj \<Rightarrow> string \<Rightarrow> string option \<Rightarrow> string option" where
  "addBuffer_loop [] filePath fileName = fileName"
| "addBuffer_loop ((burl, dir) # c) filePath fileName =
     (if indexOf_is_0 filePath dir
      then addBuffer_loop c filePath (Some (buffer_key burl dir filePath))
      else addBuffer_loop c filePath fileName)"

text \<open>\<^verbatim>\<open>this.buffers[fileName] = content\<close>: an undefined \<open>fileName\<close> is turned into
  the property name \<^verbatim>\<open>undefined\<close>.\<close>

definition property_key :: "string option \<Rightarrow> string" where
  "property_key k = (case k of None \<Rightarrow> ''undefined'' | Some s \<Rightarrow> s)"

definition addBuffer :: "minuet_web \<Rightarrow> string \<Rightarrow> string \<Rightarrow> minuet_web" where
  "addBuffer st filePath content =
     (let st1 = normalize_rootDir st;
          fileName = addBuffer_loop (mounts_of (rootDir st1)) filePath None
      in st1\<lparr>buffers := AList.update (property_key fileName) content (buffers st1)\<rparr>)"

text \<open>
  \<^verbatim>\<open>search\<close> walks a directory. The entries of a sub-directory and the size and bytes
  of a file are those of the tree node that \<^verbatim>\<open>readdirSync\<close> listed.
\<close>

text \<open>The \<^verbatim>\<open>else\<close> branch of the loop body: an entry that is not a directory, with
  its name, its path \<^verbatim>\<open>target + "/" + name\<close> and its bytes.\<close>

definition search_file :: "minuet_web \<Rightarrow> string \<Rightarrow> string \<Rightarrow> string \<Rightarrow> minuet_web" where
  "search_file st name filePath content =
     (if \<not> hasMine st name then st
      else if int (length content) > bufferingMaxSize st then st
      else addBuffer st filePath content)"

fun search_entries :: "minuet_web \<Rightarrow> string \<Rightarrow> string \<Rightarrow> (string \<times> fsnode) list \<Rightarrow> minuet_web"
  and search_entry :: "minuet_web \<Rightarrow> string \<Rightarrow> string \<Rightarrow> string \<Rightarrow> fsnode \<Rightarrow> minuet_web" where
  "search_entries st targetPath u [] = st"
| "search_entries st targetPath u ((name, n) # list) =
     search_entries (search_entry st targetPath u name n) targetPath u list"
| "search_entry st targetPath u name (Dir es) =
     search_entries st (targetPath @ ''/'' @ name) u es"
| "search_entry st targetPath u name (File content) =
     search_file st name (targetPath @ ''/'' @ name) content"

definition search :: "minuet_web \<Rightarrow> fsnode \<Rightarrow> string \<Rightarrow> string \<Rightarrow> js_error + minuet_web" where
  "search st disk targetPath u =
     (case readdirSync disk targetPath of
        None \<Rightarrow> Inl FsError
      | Some list \<Rightarrow> Inr (search_entries st targetPath u list))"

text \<open>
  The regular files below a directory, in the order in which \<^verbatim>\<open>search\<close> comes to
  them (entries in listing order, a sub-directory's files where the sub-directory
  stands), each with its name, its path as the walk builds it, and its bytes. This is
  a reading of the disk alone, to name "every regular file" of a rebuild.
\<close>

fun regular_files :: "string \<Rightarrow> (string \<times> fsnode) list \<Rightarrow> (string \<times> string \<times> string) list"
  and regular_files_of :: "string \<Rightarrow> string \<Rightarrow> fsnode \<Rightarrow> (string \<times> string \<times> string) list" where
  "regular_files targetPath [] = []"
| "regular_files targetPath ((name, n) # list) =
     regular_files_of targetPath name n @ regular_files targetPath list"
| "regular_files_of targetPath name (Dir es) = regular_files (targetPath @ ''/'' @ name) es"
| "regular_files_of targetPath name (File content) =
     [(name, targetPath @ ''/'' @ name, content)]"

text \<open>What the walk does when it comes to one of them.\<close>

definition visit_file :: "minuet_web \<Rightarrow> string \<times> string \<times> string \<Rightarrow> minuet_web" where
  "visit_file st f = (case f of (name, filePath, content) \<Rightarrow> search_file st name filePath content)"

text \<open>The same for all mounts, in the order of \<^verbatim>\<open>Object.keys(this.rootDir)\<close>.\<close>

fun mount_files :: "fsnode \<Rightarrow> string obj \<Rightarrow> (string \<times> string \<times> string) list" where
  "mount_files d [] = []"
| "mount_files d ((u, dir) # r) =
     (case readdirSync d dir of
        None \<Rightarrow> []
      | Some list \<Rightarrow> regular_files dir list) @ mount_files d r"

text \<open>What the methods read from outside the instance: the disk, the directory of
  the module (\<^verbatim>\<open>__dirname\<close>) and the clock.\<close>

record js_date =
  getFullYear :: nat
  getMonth :: nat
  getDate :: nat
  getHours :: nat
  getMinutes :: nat
  getSeconds :: nat

record env =
  disk :: fsnode
  module_dirname :: string
  now :: js_date

fun updateBuffer_loop :: "minuet_web \<Rightarrow> fsnode \<Rightarrow> string obj \<Rightarrow> js_error + minuet_web" where
  "updateBuffer_loop st d [] = Inr st"
| "updateBuffer_loop st d ((u, dir) # r) =
     (case search st d dir u of
        Inl e \<Rightarrow> Inl e
      | Inr st' \<Rightarrow> updateBuffer_loop st' d r)"

text \<open>The end of \<^verbatim>\<open>updateBuffer\<close>: the not-found page and the listing template are
  read into their sentinel keys.\<close>

definition load_sentinels :: "minuet_web \<Rightarrow> env \<Rightarrow> js_error + minuet_web" where
  "load_sentinels st2 e =
     (case (case notFound st2 of
              NFPage page \<Rightarrow>
                (case readFileSync (disk e) page of
                   None \<Rightarrow> Inl FsError
                 | Some content \<Rightarrow>
                     Inr (st2\<lparr>buffers := AList.update notFound_key content (buffers st2)\<rparr>))
            | NFBool b \<Rightarrow> Inr st2) of
        Inl err \<Rightarrow> Inl err
      | Inr st3 \<Rightarrow>
         (if listNavigator st3 then
            (case readFileSync (disk e) (module_dirname e @ ''/listnavigator/index.html'') of
               None \<Rightarrow> Inl FsError
             | Some content \<Rightarrow>
                 Inr (st3\<lparr>buffers := AList.update listNavigator_key content (buffers st3)\<rparr>))
          else Inr st3))"

definition updateBuffer :: "minuet_web \<Rightarrow> env \<Rightarrow> js_error + minuet_web" where
  "updateBuffer st e =
     (if buffering st then
        (let st1 = normalize_rootDir (st\<lparr>buffers := []\<rparr>) in
         case updateBuffer_loop st1 (disk e) (mounts_of (rootDir st1)) of
           Inl err \<Rightarrow> Inl err
         | Inr st2 \<Rightarrow> load_sentinels st2 e)
      else Inr st)"

record minuet_web_option =
  opt_url :: "string option"
  opt_rootDir :: "rootdir option"
  opt_mimes :: "string obj option"
  opt_headers :: "string obj option"
  opt_buffering :: "bool option"
  opt_bufferingMaxSize :: "int option"
  opt_directReading :: "bool option"
  opt_notFound :: "notfound option"
  opt_directoryIndexs :: "string list option"
  opt_listNavigator :: "bool option"
  opt_logAccess :: "string option"

definition setting :: "minuet_web \<Rightarrow> env \<Rightarrow> minuet_web_option \<Rightarrow> js_error + minuet_web" where
  "setting st e options =
     updateBuffer
       (st\<lparr> url := (case opt_url options of Some v \<Rightarrow> v | None \<Rightarrow> url st),
            rootDir := (case opt_rootDir options of Some v \<Rightarrow> v | None \<Rightarrow> rootDir st),
            mimes := (case opt_mimes options of Some v \<Rightarrow> v | None \<Rightarrow> mimes st),
            headers := (case opt_headers options of Some v \<Rightarrow> v | None \<Rightarrow> headers st),
            buffering := (case opt_buffering options of Some v \<Rightarrow> v | None \<Rightarrow> buffering st),
            bufferingMaxSize :=
              (case opt_bufferingMaxSize options of Some v \<Rightarrow> v | None \<Rightarrow> bufferingMaxSize st),
            directReading :=
              (case opt_directReading options of Some v \<Rightarrow> v | None \<Rightarrow> directReading st),
            notFound := (case opt_notFound options of Some v \<Rightarrow> v | None \<Rightarrow> notFound st),
            directoryIndexs :=
              (case opt_directoryIndexs options of Some v \<Rightarrow> v | None \<Rightarrow> directoryIndexs st),
            listNavigator :=
              (case opt_listNavigator options of Some v \<Rightarrow> v | None \<Rightarrow> listNavigator st),
            logAccess :=
              (case opt_logAccess options of Some v \<Rightarrow> Some v | None \<Rightarrow> logAccess st) \<rparr>) e"

definition constructor :: "env \<Rightarrow> minuet_web_option option \<Rightarrow> js_error + minuet_web" where
  "constructor e options =
     (case options of
        Some opts \<Rightarrow> setting initial e opts
      | None \<Rightarrow> updateBuffer initial e)"

definition addRootDir :: "minuet_web \<Rightarrow> env \<Rightarrow> string \<Rightarrow> string \<Rightarrow> js_error + minuet_web" where
  "addRootDir st e u dir =
     (let st1 = normalize_rootDir st;
          st2 = st1\<lparr>rootDir := Mounted (AList.update u dir (mounts_of (rootDir st1)))\<rparr>
      in if buffering st2 then search st2 (disk e) dir u else Inr st2)"

subsection \<open>The response\<close>

text \<open>\<^verbatim>\<open>ServerResponse\<close>: the status code (200 until assigned), the calls of
  \<^verbatim>\<open>setHeader\<close> that went through, in order, the chunks written, and whether
  \<^verbatim>\<open>end\<close> was called.\<close>

record server_response =
  statusCode :: nat
  header_calls :: "(string \<times> string) list"
  written :: "string list"
  ended :: bool

definition fresh_response :: server_response where
  "fresh_response = \<lparr> statusCode = 200, header_calls = [], written = [], ended = False \<rparr>"

text \<open>The head of the response goes out with the first \<^verbatim>\<open>write\<close> or with
  \<^verbatim>\<open>end\<close> (the caller is taken not to have sent it by \<^verbatim>\<open>writeHead\<close> or
  \<^verbatim>\<open>flushHeaders\<close> before).\<close>

definition headersSent :: "server_response \<Rightarrow> bool" where
  "headersSent res = (written res \<noteq> [] \<or> ended res)"

text \<open>A header name must be a non-empty HTTP token; a header value must not hold a
  control character other than the tab.\<close>

definition token_chars :: string where
  "token_chars =
     ''abcdefghijklmnopqrstuvwxyzABCDEFGHIJKLMNOPQRSTUVWXYZ0123456789-!#$%&*+.^_|~''
       @ [CHR 0x27, CHR 0x60]"

definition valid_header_name :: "string \<Rightarrow> bool" where
  "valid_header_name name = (name \<noteq> [] \<and> list_all (\<lambda>c. c \<in> set token_chars) name)"

definition valid_header_char :: "char \<Rightarrow> bool" where
  "valid_header_char c =
     (c = CHR 0x09 \<or> ((32::nat) \<le> of_char c \<and> of_char c \<noteq> (127::nat)))"

definition valid_header_value :: "string \<Rightarrow> bool" where
  "valid_header_value v = list_all valid_header_char v"

text \<open>\<^verbatim>\<open>res.setHeader\<close> throws once the head is sent, on a name that is no token,
  and on a value with an invalid character, in this order.\<close>

definition res_setHeader :: "server_response \<Rightarrow> string \<Rightarrow> string \<Rightarrow> js_error + server_response" where
  "res_setHeader res name v =
     (if headersSent res then Inl HeadersSent
      else if \<not> valid_header_name name then Inl InvalidHttpToken
      else if \<not> valid_header_value v then Inl InvalidChar
      else Inr (res\<lparr>header_calls := header_calls res @ [(name, v)]\<rparr>))"

text \<open>\<^verbatim>\<open>res.write\<close> with a \<^verbatim>\<open>Buffer\<close> or a string and \<^verbatim>\<open>res.end\<close> throw nothing
  (on a response that is already finished they are taken to add to the record all
  the same).\<close>

definition res_write :: "server_response \<Rightarrow> string \<Rightarrow> server_response" where
  "res_write res chunk = res\<lparr>written := written res @ [chunk]\<rparr>"

definition res_end :: "server_response \<Rightarrow> server_response" where
  "res_end res = res\<lparr>ended := True\<rparr>"

text \<open>\<^verbatim>\<open>IncomingMessage\<close>: of a request that comes from an HTTP server, for which
  \<^verbatim>\<open>url\<close> is always a string.\<close>

record incoming_message =
  req_url :: string

text \<open>\<^verbatim>\<open>setHeader\<close>: one \<^verbatim>\<open>res.setHeader\<close> per key of \<^verbatim>\<open>this.headers\<close>, with its
  value; the first one that throws ends the loop, and the response stays as the calls
  before it left it.\<close>

fun setHeader_loop ::
  "server_response \<Rightarrow> string obj \<Rightarrow> js_error \<times> server_response + server_response" where
  "setHeader_loop res [] = Inr res"
| "setHeader_loop res ((name, v) # c) =
     (case res_setHeader res name v of
        Inl err \<Rightarrow> Inl (err, res)
      | Inr res' \<Rightarrow> setHeader_loop res' c)"

definition setHeader ::
  "minuet_web \<Rightarrow> server_response \<Rightarrow> js_error \<times> server_response + server_response" where
  "setHeader st res = setHeader_loop res (headers st)"

subsection \<open>The content loader\<close>

definition readFile_path :: "minuet_web \<Rightarrow> string \<Rightarrow> string \<Rightarrow> string \<Rightarrow> string \<Rightarrow> string" where
  "readFile_path st dir burl targetPath rest_part =
     split_join ''//'' ''/''
       (if url st \<noteq> ''/''
        then dir @ ''/'' @ drop (length burl) (drop (length (url st)) targetPath) @ rest_part
        else dir @ ''/'' @ drop (length burl) targetPath @ rest_part)"

text \<open>The inner loop over \<^verbatim>\<open>directoryIndexs\<close>; its \<^verbatim>\<open>break\<close> leaves this loop only.\<close>

fun readFile_indexes ::
  "minuet_web \<Rightarrow> fsnode \<Rightarrow> string \<Rightarrow> string \<Rightarrow> string \<Rightarrow> string list \<Rightarrow> string option" where
  "readFile_indexes st d dir burl targetPath [] = None"
| "readFile_indexes st d dir burl targetPath (index # rest) =
     (let targetFullPath = readFile_path st dir burl targetPath (''/'' @ index) in
      if existsSync d targetFullPath \<and> stat_isFile d targetFullPath
      then Some targetFullPath
      else readFile_indexes st d dir burl targetPath rest)"

text \<open>The outer loop over the mounts, with \<open>decisionPath\<close> as it stands.\<close>

fun readFile_mounts ::
  "minuet_web \<Rightarrow> fsnode \<Rightarrow> string \<Rightarrow> string obj \<Rightarrow> string option \<Rightarrow> string option" where
  "readFile_mounts st d targetPath [] decisionPath = decisionPath"
| "readFile_mounts st d targetPath ((burl, dir) # c) decisionPath =
     (let targetFullPath = readFile_path st dir burl targetPath [] in
      if existsSync d targetFullPath \<and> stat_isFile d targetFullPath
      then Some targetFullPath
      else readFile_mounts st d targetPath c
             (case readFile_indexes st d dir burl targetPath (directoryIndexs st) of
                Some p \<Rightarrow> Some p
              | None \<Rightarrow> decisionPath))"

text \<open>\<^verbatim>\<open>readFile\<close> gives content and mime, or nothing (\<^verbatim>\<open>undefined\<close>), or throws
  when the decided path cannot be read; the instance comes back with \<open>rootDir\<close>
  normalised when the disk was consulted. A stored \<^verbatim>\<open>Buffer\<close> is truthy even when
  it is empty, and so is an inherited member: the read of the store is a hit whenever
  it gives anything.\<close>

definition readFile ::
  "minuet_web \<Rightarrow> fsnode \<Rightarrow> string \<Rightarrow> (js_error + (loaded \<times> string option) option) \<times> minuet_web" where
  "readFile st d targetPath =
     (case (if buffering st then read_buffers (buffers st) targetPath else None) of
        Some content \<Rightarrow> (Inr (Some (content, getMime st targetPath)), st)
      | None \<Rightarrow>
          (let st1 = normalize_rootDir st;
               decisionPath = readFile_mounts st1 d targetPath (mounts_of (rootDir st1)) None
           in if \<not> truthy decisionPath then (Inr None, st1)
              else (case readFileSync d (property_key decisionPath) of
                      None \<Rightarrow> (Inl FsError, st1)
                    | Some content \<Rightarrow>
                        (Inr (Some (Buffer content, getMime st1 (property_key decisionPath))), st1))))"

subsection \<open>The not-found handler\<close>

text \<open>The sentinel keys are not names of inherited members, so these reads of the
  store see own properties only.\<close>

definition error :: "minuet_web \<Rightarrow> fsnode \<Rightarrow> server_response \<Rightarrow> bool \<times> server_response" where
  "error st d res =
     (case notFound st of
        NFBool b \<Rightarrow>
          (if \<not> b then (False, res)
           else (True, res_end (res\<lparr>statusCode := 404\<rparr>)))
      | NFPage page \<Rightarrow>
          (case (if buffering st then map_of (buffers st) notFound_key
                 else readFileSync d page) of
             Some content \<Rightarrow>
               (True, res_end (res_write (res\<lparr>statusCode := 404\<rparr>) content))
           | None \<Rightarrow> (True, res_end (res_write res ''ERROR''))))"

subsection \<open>The URL resolver\<close>

fun getUrl_exists :: "fsnode \<Rightarrow> string obj \<Rightarrow> string \<Rightarrow> bool" where
  "getUrl_exists d [] cand = False"
| "getUrl_exists d ((burl, dir) # c) cand =
     (if existsSync d (split_join ''//'' ''/'' (dir @ ''/'' @ cand)) then True
      else getUrl_exists d c cand)"

fun getUrl_loop :: "minuet_web \<Rightarrow> fsnode \<Rightarrow> string \<Rightarrow> string list \<Rightarrow> string \<times> minuet_web" where
  "getUrl_loop st d baseUrl [] = (baseUrl, st)"
| "getUrl_loop st d baseUrl (cand # urlList) =
     (if buffering st \<and> read_buffers (buffers st) cand \<noteq> None then (cand, st)
      else if buffering st \<and> \<not> directReading st then getUrl_loop st d baseUrl urlList
      else (let st1 = normalize_rootDir st in
            if getUrl_exists d (mounts_of (rootDir st1)) cand then (cand, st1)
            else getUrl_loop st1 d baseUrl urlList))"

definition getUrl :: "minuet_web \<Rightarrow> fsnode \<Rightarrow> string \<Rightarrow> string \<times> minuet_web" where
  "getUrl st d baseUrl =
     (let u0 = split_first CHR ''?'' baseUrl;
          u = (if u0 \<noteq> ''/'' \<and> ends_with_slash u0 then butlast u0 else u0);
          urlList = map (\<lambda>index. split_join ''//'' ''/'' (u @ ''/'' @ index)) (directoryIndexs st)
      in getUrl_loop st d baseUrl urlList)"

subsection \<open>The directory navigator\<close>

definition getDirectories :: "minuet_web \<Rightarrow> string \<Rightarrow> string list" where
  "getDirectories st u =
     (if buffering st
      then filter (\<lambda>file. indexOf_is_0 file u
                     \<and> length (split_on CHR ''/'' (drop (length u) file)) = 2)
             (keys (buffers st))
      else [])"

function show_nat :: "nat \<Rightarrow> string" where
  "show_nat n =
     (if n < 10 then [''0123456789'' ! n]
      else show_nat (n div 10) @ [''0123456789'' ! (n mod 10)])"
  by pat_completeness auto
termination
  by (relation "measure id") auto

text \<open>\<^verbatim>\<open>("0" + n).slice(-2)\<close>\<close>

definition two_digits :: "nat \<Rightarrow> string" where
  "two_digits n = (let s = ''0'' @ show_nat n in drop (length s - 2) s)"

definition nowDate :: "js_date \<Rightarrow> string" where
  "nowDate dt =
     show_nat (getFullYear dt) @ ''/'' @ two_digits (getMonth dt + 1) @ ''/''
       @ two_digits (getDate dt) @ '' '' @ two_digits (getHours dt) @ '':''
       @ two_digits (getMinutes dt) @ '':'' @ two_digits (getSeconds dt)"

definition list_row :: "string \<Rightarrow> string" where
  "list_row entry =
     ''<tr><td>-</td><td><a href=\"'' @ entry @ ''\">'' @ basename entry @ ''</a></td></tr>''"

definition listing_page :: "string \<Rightarrow> string \<Rightarrow> string list \<Rightarrow> js_date \<Rightarrow> string" where
  "listing_page template u list dt =
     split_join ''{comment}'' (''Minuet Server | '' @ nowDate dt)
       (split_join ''{lists}'' (concat (map list_row list))
          (split_join ''{back}'' (dirname u)
             (split_join ''{url}'' u template)))"

text \<open>\<^verbatim>\<open>isDirectory\<close> returns true whenever it returns; reading the template of a
  store that has none throws.\<close>

definition isDirectory ::
  "minuet_web \<Rightarrow> env \<Rightarrow> incoming_message \<Rightarrow> server_response \<Rightarrow> js_error + bool \<times> server_response" where
  "isDirectory st e req res =
     (let u0 = split_first CHR ''?'' (req_url req);
          u = (if ends_with_slash u0 then butlast u0 else u0)
      in if buffering st then
           (case map_of (buffers st) listNavigator_key of
              None \<Rightarrow> Inl TypeError
            | Some template \<Rightarrow>
                Inr (True, res_end (res_write res
                       (listing_page template u (getDirectories st u) (now e)))))
         else Inr (True, res))"

subsection \<open>The request handler\<close>

text \<open>\<^verbatim>\<open>log\<close> passes the access-log mode to the logger, when both are there. The
  logger is outside this module; its \<^verbatim>\<open>write\<close> is recorded as the mode it was given
  and is taken to return.\<close>

definition log :: "minuet_web \<Rightarrow> string option \<Rightarrow> string list" where
  "log st logMode =
     (if \<not> truthy logMode then []
      else if logger st then [property_key logMode]
      else [])"

record outcome =
  returned :: bool
  inst :: minuet_web
  response :: server_response
  log_writes :: "string list"

text \<open>A call that throws: the exception, and the instance and the response as the
  call leaves them.\<close>

record thrown =
  raised :: js_error
  inst_then :: minuet_web
  response_then :: server_response

text \<open>The two ways out of \<^verbatim>\<open>listen\<close> besides the navigator: the lines after the
  \<^verbatim>\<open>try\<close> block, which send the file, and \<^verbatim>\<open>return this.error(res)\<close>. Sending
  the file is not guarded: \<^verbatim>\<open>setHeader\<close> may throw, and so does \<^verbatim>\<open>res.write\<close> on
  a content that is no \<^verbatim>\<open>Buffer\<close>, in both cases after \<open>headers\<close> was assigned.\<close>

definition ok_outcome ::
  "minuet_web \<Rightarrow> server_response \<Rightarrow> loaded \<Rightarrow> string \<Rightarrow> thrown + outcome" where
  "ok_outcome st2 res content mime =
     (let st3 = st2\<lparr>headers := AList.update ''content-type'' mime (headers st2)\<rparr>
      in case setHeader st3 (res\<lparr>statusCode := 200\<rparr>) of
           Inl (err, res1) \<Rightarrow>
             Inl \<lparr> raised = err, inst_then = st3, response_then = res1 \<rparr>
         | Inr res1 \<Rightarrow>
             (case content of
                Member k \<Rightarrow>
                  Inl \<lparr> raised = TypeError, inst_then = st3, response_then = res1 \<rparr>
              | Buffer bytes \<Rightarrow>
                  Inr \<lparr> returned = True, inst = st3,
                        response = res_end (res_write res1 bytes),
                        log_writes = log st3 (logAccess st3) \<rparr>))"

definition error_outcome :: "minuet_web \<Rightarrow> fsnode \<Rightarrow> server_response \<Rightarrow> outcome" where
  "error_outcome st2 d res =
     \<lparr> returned = fst (error st2 d res), inst = st2, response = snd (error st2 d res),
       log_writes = [] \<rparr>"

definition listen ::
  "minuet_web \<Rightarrow> env \<Rightarrow> incoming_message \<Rightarrow> server_response \<Rightarrow> thrown + outcome" where
  "listen st e req res =
     (let url0 = split_first CHR ''?'' (req_url req);
          (u, st1) = getUrl st (disk e) url0
      in if u = [] then
           (if listNavigator st1 then
              (case isDirectory st1 e req res of
                 Inl err \<Rightarrow> Inl \<lparr> raised = err, inst_then = st1, response_then = res \<rparr>
               | Inr (b, res') \<Rightarrow>
                   (if b then Inr \<lparr> returned = True, inst = st1, response = res',
                                    log_writes = [] \<rparr>
                    else Inr (error_outcome st1 (disk e) res')))
            else Inr (error_outcome st1 (disk e) res))
         else
           (case readFile st1 (disk e) u of
              (buff, st2) \<Rightarrow>
                (case (case buff of
                         Inl err \<Rightarrow> None
                       | Inr None \<Rightarrow> None
                       | Inr (Some (content, mime)) \<Rightarrow>
                           (if \<not> truthy mime then None
                            else Some (content, property_key mime))) of
                   None \<Rightarrow> Inr (error_outcome st2 (disk e) res)
                 | Some (content, mime) \<Rightarrow> ok_outcome st2 res content mime)))"

subsection \<open>Concrete instances\<close>

definition clock :: js_date where
  "clock = \<lparr> getFullYear = 2024, getMonth = 0, getDate = 1,
             getHours = 0, getMinutes = 0, getSeconds = 0 \<rparr>"

text \<open>A root \<^verbatim>\<open>htdocs\<close> with the directory \<^verbatim>\<open>docs\<close> holding \<^verbatim>\<open>a.txt\<close> and
  \<^verbatim>\<open>b.txt\<close>; the bundled listing template (not part of \<^verbatim>\<open>src\<close>) is a parameter.\<close>

definition disk_docs :: "string \<Rightarrow> fsnode" where
  "disk_docs template =
     Dir [(''htdocs'', Dir [(''docs'', Dir [(''a.txt'', File ''AAA''), (''b.txt'', File ''BBB'')])]),
          (''module'', Dir [(''listnavigator'', Dir [(''index.html'', File template)])])]"

definition env_docs :: "string \<Rightarrow> env" where
  "env_docs template = \<lparr> disk = disk_docs template, module_dirname = ''/module'', now = clock \<rparr>"

definition web_docs :: "string \<Rightarrow> minuet_web" where
  "web_docs template =
     initial\<lparr> rootDir := Mounted [(''/'', ''htdocs'')], listNavigator := True,
              buffers := [(''/docs/a.txt'', ''AAA''), (''/docs/b.txt'', ''BBB''),
                          (''#listNavigator'', template)] \<rparr>"


definition env_empty :: env where
  "env_empty = \<lparr> disk = Dir [], module_dirname = [], now = clock \<rparr>"

text \<open>Two mounts whose files meet under one URL: \<^verbatim>\<open>d1/s/f.txt\<close> of the mount
  \<^verbatim>\<open>/\<close> and \<^verbatim>\<open>d2/f.txt\<close> of the mount \<^verbatim>\<open>/s\<close> are both \<^verbatim>\<open>/s/f.txt\<close>. The
  size cap is three bytes.\<close>

definition web_meeting_mounts :: minuet_web where
  "web_meeting_mounts =
     initial\<lparr> rootDir := Mounted [(''/'', ''d1''), (''/s'', ''d2'')], bufferingMaxSize := 3 \<rparr>"

definition disk_meeting_mounts :: fsnode where
  "disk_meeting_mounts =
     Dir [(''d1'', Dir [(''s'', Dir [(''f.txt'', File ''abc'')])]),
          (''d2'', Dir [(''f.txt'', File ''xyz'')])]"

text \<open>A root with a file of three bytes in a sub-directory and a file of four bytes
  beside it.\<close>

definition disk_sizes :: fsnode where
  "disk_sizes =
     Dir [(''htdocs'', Dir [(''sub'', Dir [(''a.txt'', File ''abc'')]), (''b.txt'', File ''abcd'')])]"

text \<open>Two mounts that both cover \<^verbatim>\<open>/a/x\<close>, each with an index file for it.\<close>

definition web_nested_mounts :: minuet_web where
  "web_nested_mounts =
     initial\<lparr> rootDir := Mounted [(''/'', ''dirA''), (''/a'', ''dirB'')], buffering := False,
              directoryIndexs := [''index.html''] \<rparr>"

definition disk_nested_mounts :: fsnode where
  "disk_nested_mounts =
     Dir [(''dirA'', Dir [(''a'', Dir [(''x'', Dir [(''index.html'', File ''from dirA'')])])]),
          (''dirB'', Dir [(''x'', Dir [(''index.html'', File ''from dirB'')])])]"

text \<open>The nested order of \<^verbatim>\<open>readFile\<close> written as one list of paths (for each mount
  the direct path, then one path per index name), and the first of them that is a
  regular file: the decision the specification describes.\<close>

definition spec_candidate_paths :: "minuet_web \<Rightarrow> string \<Rightarrow> string obj \<Rightarrow> string list" where
  "spec_candidate_paths st targetPath c =
     concat (map (\<lambda>(burl, dir).
        readFile_path st dir burl targetPath []
          # map (\<lambda>index. readFile_path st dir burl targetPath (''/'' @ index)) (directoryIndexs st)) c)"

definition spec_first_accepted :: "minuet_web \<Rightarrow> fsnode \<Rightarrow> string \<Rightarrow> string obj \<Rightarrow> string option" where
  "spec_first_accepted st d targetPath c =
     find (\<lambda>p. existsSync d p \<and> stat_isFile d p) (spec_candidate_paths st targetPath c)"

text \<open>One mount \<^verbatim>\<open>/a\<close> on \<^verbatim>\<open>dirA\<close>, which holds \<^verbatim>\<open>x/index.html\<close>; no buffering.\<close>

definition web_mount_a :: minuet_web where
  "web_mount_a =
     initial\<lparr> rootDir := Mounted [(''/a'', ''dirA'')], buffering := False,
              directoryIndexs := [''index.html''] \<rparr>"

definition disk_mount_a :: fsnode where
  "disk_mount_a = Dir [(''dirA'', Dir [(''x'', Dir [(''index.html'', File ''index of x'')])])]"

text \<open>Two mounts \<^verbatim>\<open>/a\<close> and \<^verbatim>\<open>/b\<close>, each directory with its own \<^verbatim>\<open>x.txt\<close>.\<close>

definition disk_ab :: "string \<Rightarrow> string \<Rightarrow> fsnode" where
  "disk_ab contentA contentB =
     Dir [(''dirA'', Dir [(''x.txt'', File contentA)]),
          (''dirB'', Dir [(''x.txt'', File contentB)])]"

definition env_ab :: "string \<Rightarrow> string \<Rightarrow> env" where
  "env_ab contentA contentB =
     \<lparr> disk = disk_ab contentA contentB, module_dirname = [], now = clock \<rparr>"

definition web_ab :: "bool \<Rightarrow> minuet_web" where
  "web_ab buffered =
     initial\<lparr> rootDir := Mounted [(''/a'', ''dirA''), (''/b'', ''dirB'')], buffering := buffered \<rparr>"

section \<open>Properties\<close>

subsection \<open>Frame facts\<close>

lemma mounts_of_Mounted [simp]: "mounts_of (Mounted ms) = ms"
  by (simp add: mounts_of_def)

lemma mounts_of_normalize [simp]: "mounts_of (rootDir (normalize_rootDir st)) = mounts_of (rootDir st)"
  by (simp add: normalize_rootDir_def mounts_of_def split: rootdir.splits)

lemma normalize_rootDir_idem [simp]: "normalize_rootDir (normalize_rootDir st) = normalize_rootDir st"
  by (simp add: normalize_rootDir_def mounts_of_def split: rootdir.splits)

lemma normalize_fields [simp]:
  "url (normalize_rootDir st) = url st"
  "mimes (normalize_rootDir st) = mimes st"
  "headers (normalize_rootDir st) = headers st"
  "buffering (normalize_rootDir st) = buffering st"
  "bufferingMaxSize (normalize_rootDir st) = bufferingMaxSize st"
  "directReading (normalize_rootDir st) = directReading st"
  "notFound (normalize_rootDir st) = notFound st"
  "directoryIndexs (normalize_rootDir st) = directoryIndexs st"
  "listNavigator (normalize_rootDir st) = listNavigator st"
  "logAccess (normalize_rootDir st) = logAccess st"
  "buffers (normalize_rootDir st) = buffers st"
  "logger (normalize_rootDir st) = logger st"
  by (simp_all add: normalize_rootDir_def)

lemma addBuffer_loop_last:
  "addBuffer_loop c filePath fileName =
     (case filter (\<lambda>(burl, dir). prefix dir filePath) c of
        [] \<Rightarrow> fileName
      | m # ms \<Rightarrow> Some (case last (m # ms) of (burl, dir) \<Rightarrow> buffer_key burl dir filePath))"
proof (induction c arbitrary: fileName)
  case Nil
  then show ?case by simp
next
  case (Cons a c)
  obtain burl dir where a: "a = (burl, dir)" by (cases a)
  show ?case
    by (cases "filter (\<lambda>(burl, dir). prefix dir filePath) c")
       (simp_all add: a Cons.IH indexOf_is_0_def)
qed

lemma addBuffer_loop_unmatched:
  "\<forall>(burl, dir) \<in> set c. \<not> prefix dir filePath \<Longrightarrow> addBuffer_loop c filePath fileName = fileName"
  by (induction c arbitrary: fileName) (auto simp: indexOf_is_0_def)

lemma addBuffer_fields [simp]:
  "mimes (addBuffer st f c) = mimes st"
  "bufferingMaxSize (addBuffer st f c) = bufferingMaxSize st"
  "buffering (addBuffer st f c) = buffering st"
  "mounts_of (rootDir (addBuffer st f c)) = mounts_of (rootDir st)"
  by (simp_all add: addBuffer_def Let_def)

lemma addBuffer_stores:
  "map_of (buffers (addBuffer st f c))
     (property_key (addBuffer_loop (mounts_of (rootDir st)) f None)) = Some c"
  by (simp add: addBuffer_def Let_def update_conv')

lemma getMime_addBuffer [simp]: "getMime (addBuffer st f c) t = getMime st t"
  by (simp add: getMime_def)

subsection \<open>Round trip through the buffer store\<close>

text \<open>
  Claim C6. With buffering enabled, when some mount directory starts \<open>filePath\<close>,
  \<open>addBuffer filePath content\<close> followed by \<open>readFile\<close> on the computed URL key (the
  key of the last mount whose directory starts the path: its url prefix, empty for
  \<^verbatim>\<open>/\<close>, followed by the path without the directory, with \<^verbatim>\<open>//\<close> replaced by
  \<^verbatim>\<open>/\<close>) gives back exactly \<open>content\<close>, whatever is on the disk.
\<close>

theorem C6_addBuffer_readFile_roundtrip:
  assumes "buffering st"
    and "\<exists>(burl, dir) \<in> set (mounts_of (rootDir st)). prefix dir filePath"
  shows "case last (filter (\<lambda>(burl, dir). prefix dir filePath) (mounts_of (rootDir st))) of
           (burl, dir) \<Rightarrow>
             fst (readFile (addBuffer st filePath content) d (buffer_key burl dir filePath))
               = Inr (Some (Buffer content, getMime st (buffer_key burl dir filePath)))"
proof -
  let ?ms = "filter (\<lambda>(burl, dir). prefix dir filePath) (mounts_of (rootDir st))"
  from assms(2) have ne: "?ms \<noteq> []"
    by (auto simp: filter_empty_conv)
  obtain burl dir where l: "last ?ms = (burl, dir)" by (cases "last ?ms")
  from ne obtain m ms where ms: "?ms = m # ms" by (cases ?ms) auto
  have "addBuffer_loop (mounts_of (rootDir st)) filePath None
          = Some (case last ?ms of (burl, dir) \<Rightarrow> buffer_key burl dir filePath)"
    unfolding addBuffer_loop_last ms by simp
  then have k: "addBuffer_loop (mounts_of (rootDir st)) filePath None
                    = Some (buffer_key burl dir filePath)"
    by (simp add: l)
  have "map_of (buffers (addBuffer st filePath content)) (buffer_key burl dir filePath) = Some content"
    using addBuffer_stores [of st filePath content] by (simp add: k property_key_def)
  then show ?thesis
    using assms(1) by (simp add: l readFile_def read_buffers_def)
qed


theorem C6_addBuffer_readFile_roundtrip_witness:
  "buffering initial
   \<and> (\<exists>(burl, dir) \<in> set (mounts_of (rootDir initial)). prefix dir ''htdocs/a.txt'')
   \<and> fst (readFile (addBuffer initial ''htdocs/a.txt'' ''hi'') (Dir []) ''/a.txt'')
        = Inr (Some (Buffer ''hi'', Some ''text/plain''))"
proof -
  have b: "buffering initial" by (simp add: initial_def)
  have m: "mounts_of (rootDir initial) = [(''/'', ''htdocs'')]"
    by (simp add: initial_def mounts_of_def)
  have p: "\<exists>(burl, dir) \<in> set (mounts_of (rootDir initial)). prefix dir ''htdocs/a.txt''"
    by (simp add: m)
  have k: "buffer_key ''/'' ''htdocs'' ''htdocs/a.txt'' = ''/a.txt''"
    by (simp add: buffer_key_def)
  have g: "getMime initial ''/a.txt'' = Some ''text/plain''"
    by (simp add: getMime_def get_property_def extname_def basename_def
        strip_trailing_slashes_def initial_def DefaultMimes_def)
  show ?thesis
    using C6_addBuffer_readFile_roundtrip [OF b p, of "''hi''" "Dir []"] b p
    by (simp add: m k g)
qed

subsection \<open>The size cap of the buffer store\<close>

lemma hasMine_addBuffer [simp]: "hasMine (addBuffer st f c) t = hasMine st t"
  by (simp add: hasMine_def)

lemma hasMine_normalize [simp]: "hasMine (normalize_rootDir st) t = hasMine st t"
  by (simp add: hasMine_def)

lemma hasMine_buffers [simp]: "hasMine (st\<lparr>buffers := b\<rparr>) t = hasMine st t"
  by (simp add: hasMine_def)

lemma search_file_frame [simp]:
  "mimes (search_file st name p c) = mimes st"
  "bufferingMaxSize (search_file st name p c) = bufferingMaxSize st"
  "buffering (search_file st name p c) = buffering st"
  "mounts_of (rootDir (search_file st name p c)) = mounts_of (rootDir st)"
  by (simp_all add: search_file_def)

lemma search_frame:
  "mimes (search_entries st t u list) = mimes st
   \<and> bufferingMaxSize (search_entries st t u list) = bufferingMaxSize st
   \<and> buffering (search_entries st t u list) = buffering st
   \<and> mounts_of (rootDir (search_entries st t u list)) = mounts_of (rootDir st)"
  "mimes (search_entry st t u name n) = mimes st
   \<and> bufferingMaxSize (search_entry st t u name n) = bufferingMaxSize st
   \<and> buffering (search_entry st t u name n) = buffering st
   \<and> mounts_of (rootDir (search_entry st t u name n)) = mounts_of (rootDir st)"
  by (induction st t u list and st t u name n rule: search_entries_search_entry.induct) simp_all

text \<open>The walk is the fold of \<open>visit_file\<close> over the regular files below the
  directory, those of the sub-directories included.\<close>

lemma search_as_fold:
  "search_entries st t u list = foldl visit_file st (regular_files t list)"
  "search_entry st t u name n = foldl visit_file st (regular_files_of t name n)"
  by (induction st t u list and st t u name n rule: search_entries_search_entry.induct)
     (simp_all add: visit_file_def)

lemma updateBuffer_loop_as_fold:
  "updateBuffer_loop st d ms = Inr st' \<Longrightarrow> st' = foldl visit_file st (mount_files d ms)"
proof (induction ms arbitrary: st)
  case Nil
  then show ?case by simp
next
  case (Cons m ms)
  obtain u dir where m: "m = (u, dir)" by (cases m)
  from Cons.prems obtain list where
    rd: "readdirSync d dir = Some list"
    and rest: "updateBuffer_loop (search_entries st dir u list) d ms = Inr st'"
    by (auto simp: m search_def split: option.splits)
  from Cons.IH [OF rest] show ?case
    by (simp add: m rd search_as_fold)
qed

lemma visit_file_frame [simp]:
  "mimes (visit_file st f) = mimes st"
  "bufferingMaxSize (visit_file st f) = bufferingMaxSize st"
  "mounts_of (rootDir (visit_file st f)) = mounts_of (rootDir st)"
  by (simp_all add: visit_file_def split: prod.splits)

lemma fold_visit_frame [simp]:
  "mimes (foldl visit_file st fs) = mimes st"
  "bufferingMaxSize (foldl visit_file st fs) = bufferingMaxSize st"
  "mounts_of (rootDir (foldl visit_file st fs)) = mounts_of (rootDir st)"
  by (induction fs arbitrary: st) simp_all

lemma hasMine_fold_visit [simp]: "hasMine (foldl visit_file st fs) name = hasMine st name"
  by (simp add: hasMine_def)

lemma addBuffer_other_key:
  "k \<noteq> property_key (addBuffer_loop (mounts_of (rootDir st)) f None) \<Longrightarrow>
   map_of (buffers (addBuffer st f c)) k = map_of (buffers st) k"
  by (simp add: addBuffer_def Let_def update_conv')

text \<open>What the store holds under a key after more files were visited: what it held
  before, or the bytes of one of those files that has this key.\<close>

lemma fold_visit_later:
  "map_of (buffers (foldl visit_file s post)) k = map_of (buffers s) k
   \<or> (\<exists>(name', filePath', content') \<in> set post.
         property_key (addBuffer_loop (mounts_of (rootDir s)) filePath' None) = k
         \<and> map_of (buffers (foldl visit_file s post)) k = Some content')"
proof (induction post rule: rev_induct)
  case Nil
  then show ?case by simp
next
  case (snoc f post)
  obtain name p c where f: "f = (name, p, c)" by (cases f)
  let ?s1 = "foldl visit_file s post"
  let ?s2 = "foldl visit_file s (post @ [f])"
  have s2: "?s2 = ?s1 \<or> ?s2 = addBuffer ?s1 p c"
    by (simp add: visit_file_def search_file_def f)
  have step: "map_of (buffers ?s2) k = map_of (buffers ?s1) k
              \<or> (property_key (addBuffer_loop (mounts_of (rootDir s)) p None) = k
                  \<and> map_of (buffers ?s2) k = Some c)"
  proof (cases "?s2 = ?s1")
    case True
    then show ?thesis by simp
  next
    case False
    with s2 have v: "?s2 = addBuffer ?s1 p c" by simp
    show ?thesis
    proof (cases "k = property_key (addBuffer_loop (mounts_of (rootDir s)) p None)")
      case True
      have "map_of (buffers (addBuffer ?s1 p c)) k = Some c"
        using addBuffer_stores [of ?s1 p c] by (simp add: True)
      with True v show ?thesis by simp
    next
      case False
      have "map_of (buffers (addBuffer ?s1 p c)) k = map_of (buffers ?s1) k"
        by (rule addBuffer_other_key) (simp add: False)
      with v show ?thesis by simp
    qed
  qed
  from step show ?case
  proof
    assume eq: "map_of (buffers ?s2) k = map_of (buffers ?s1) k"
    from snoc.IH show ?case
    proof
      assume "map_of (buffers ?s1) k = map_of (buffers s) k"
      with eq show ?case by simp
    next
      assume "\<exists>(name', filePath', content') \<in> set post.
         property_key (addBuffer_loop (mounts_of (rootDir s)) filePath' None) = k
         \<and> map_of (buffers ?s1) k = Some content'"
      then obtain x where x: "x \<in> set post"
        and px: "case x of (name', filePath', content') \<Rightarrow>
           property_key (addBuffer_loop (mounts_of (rootDir s)) filePath' None) = k
           \<and> map_of (buffers ?s1) k = Some content'"
        by blast
      from px eq have "case x of (name', filePath', content') \<Rightarrow>
           property_key (addBuffer_loop (mounts_of (rootDir s)) filePath' None) = k
           \<and> map_of (buffers ?s2) k = Some content'"
        by (simp split: prod.splits)
      moreover from x have "x \<in> set (post @ [f])" by simp
      ultimately show ?case by blast
    qed
  next
    assume "property_key (addBuffer_loop (mounts_of (rootDir s)) p None) = k
            \<and> map_of (buffers ?s2) k = Some c"
    then have "case f of (name', filePath', content') \<Rightarrow>
           property_key (addBuffer_loop (mounts_of (rootDir s)) filePath' None) = k
           \<and> map_of (buffers ?s2) k = Some content'"
      by (simp add: f)
    moreover have "f \<in> set (post @ [f])" by simp
    ultimately show ?case by blast
  qed
qed

lemma load_sentinels_other_keys:
  assumes "load_sentinels s e = Inr st'" and "k \<noteq> notFound_key" and "k \<noteq> listNavigator_key"
  shows "map_of (buffers st') k = map_of (buffers s) k"
  using assms
  by (auto simp: load_sentinels_def update_conv' split: notfound.splits option.splits if_splits)

lemma updateBuffer_as_fold:
  assumes "buffering st" and "updateBuffer st e = Inr st'"
  shows "load_sentinels
           (foldl visit_file (normalize_rootDir (st\<lparr>buffers := []\<rparr>))
              (mount_files (disk e) (mounts_of (rootDir st)))) e = Inr st'"
proof -
  let ?st0 = "normalize_rootDir (st\<lparr>buffers := []\<rparr>)"
  from assms obtain st2 where
    l: "updateBuffer_loop ?st0 (disk e) (mounts_of (rootDir ?st0)) = Inr st2"
    and s: "load_sentinels st2 e = Inr st'"
    by (auto simp: updateBuffer_def Let_def split: sum.splits)
  from updateBuffer_loop_as_fold [OF l] s show ?thesis by simp
qed

text \<open>
  Claim C7 says that a rebuild stores every regular file with a recognised extension
  whose size is exactly \<open>bufferingMaxSize\<close>. The store is keyed by URL, and two files
  can have the same URL: with the mounts \<^verbatim>\<open>/\<close> on \<^verbatim>\<open>d1\<close> and \<^verbatim>\<open>/s\<close> on \<^verbatim>\<open>d2\<close>,
  the files \<^verbatim>\<open>d1/s/f.txt\<close> and \<^verbatim>\<open>d2/f.txt\<close> are both \<^verbatim>\<open>/s/f.txt\<close>. Both have three
  bytes, the cap; after the rebuild the store holds the bytes of the second and those
  of the first nowhere.
\<close>

theorem C7_rebuild_loses_file_at_cap:
  "hasMine web_meeting_mounts ''f.txt''
   \<and> int (length ''abc'') = bufferingMaxSize web_meeting_mounts
   \<and> mount_files disk_meeting_mounts (mounts_of (rootDir web_meeting_mounts))
       = [(''f.txt'', ''d1/s/f.txt'', ''abc''), (''f.txt'', ''d2/f.txt'', ''xyz'')]
   \<and> updateBuffer web_meeting_mounts
         \<lparr> disk = disk_meeting_mounts, module_dirname = [], now = clock \<rparr>
       = Inr (web_meeting_mounts\<lparr>buffers := [(''/s/f.txt'', ''xyz'')]\<rparr>)"
proof -
  have hm: "hasMine st ''f.txt''" if "mimes st = DefaultMimes" for st
    using that
    by (simp add: hasMine_def get_property_def extname_def basename_def
        strip_trailing_slashes_def DefaultMimes_def truthy_def)
  have rd: "readdirSync disk_meeting_mounts ''d1'' = Some [(''s'', Dir [(''f.txt'', File ''abc'')])]"
    "readdirSync disk_meeting_mounts ''d2'' = Some [(''f.txt'', File ''xyz'')]"
    by (simp_all add: readdirSync_def lookup_path_def disk_meeting_mounts_def)
  have m: "mounts_of (rootDir web_meeting_mounts) = [(''/'', ''d1''), (''/s'', ''d2'')]"
    by (simp add: web_meeting_mounts_def initial_def)
  have "updateBuffer web_meeting_mounts
         \<lparr> disk = disk_meeting_mounts, module_dirname = [], now = clock \<rparr>
       = Inr (web_meeting_mounts\<lparr>buffers := [(''/s/f.txt'', ''xyz'')]\<rparr>)"
    by (simp add: updateBuffer_def load_sentinels_def web_meeting_mounts_def initial_def
        normalize_rootDir_def search_def rd search_file_def hm addBuffer_def indexOf_is_0_def
        buffer_key_def property_key_def)
  moreover have "hasMine web_meeting_mounts ''f.txt''"
    by (simp add: hm web_meeting_mounts_def initial_def)
  moreover have "bufferingMaxSize web_meeting_mounts = 3"
    by (simp add: web_meeting_mounts_def)
  ultimately show ?thesis by (simp add: m rd)
qed

text \<open>
  Claim C7, amended. Take a rebuild (\<open>updateBuffer\<close> with buffering on) that goes
  through, and any regular file below a mount directory, at any depth: the files of
  all mounts, in the order of the walk, are \<open>pre\<close>, the file and \<open>post\<close>. The
  rebuild is the fold of \<open>visit_file\<close> over these files, followed by the sentinels.

  If the file has a recognised extension and its size is exactly \<open>bufferingMaxSize\<close>,
  it is stored: once the walk has visited it the store holds its bytes under its
  key, and the finished store holds under that key these bytes, or else the bytes
  of a file visited later that has the same key, unless the key is one of the two
  sentinel keys.

  If its size is \<open>bufferingMaxSize + 1\<close> it is not stored: the rebuild ends in the
  same instance as the fold that leaves the file out.
\<close>

theorem C7_rebuild_size_boundary:
  assumes "buffering st"
    and "updateBuffer st e = Inr st'"
    and "mount_files (disk e) (mounts_of (rootDir st)) = pre @ (name, filePath, content) # post"
  shows "load_sentinels
           (foldl visit_file (normalize_rootDir (st\<lparr>buffers := []\<rparr>))
              (pre @ (name, filePath, content) # post)) e = Inr st'
       \<and> (hasMine st name \<and> int (length content) = bufferingMaxSize st \<longrightarrow>
            map_of (buffers (foldl visit_file (normalize_rootDir (st\<lparr>buffers := []\<rparr>))
                       (pre @ [(name, filePath, content)])))
              (property_key (addBuffer_loop (mounts_of (rootDir st)) filePath None)) = Some content
            \<and> (map_of (buffers st')
                  (property_key (addBuffer_loop (mounts_of (rootDir st)) filePath None)) = Some content
               \<or> (\<exists>(name', filePath', content') \<in> set post.
                     property_key (addBuffer_loop (mounts_of (rootDir st)) filePath' None)
                       = property_key (addBuffer_loop (mounts_of (rootDir st)) filePath None)
                     \<and> map_of (buffers st')
                         (property_key (addBuffer_loop (mounts_of (rootDir st)) filePath None))
                         = Some content')
               \<or> property_key (addBuffer_loop (mounts_of (rootDir st)) filePath None) = notFound_key
               \<or> property_key (addBuffer_loop (mounts_of (rootDir st)) filePath None)
                    = listNavigator_key))
       \<and> (int (length content) = bufferingMaxSize st + 1 \<longrightarrow>
            load_sentinels
              (foldl visit_file (normalize_rootDir (st\<lparr>buffers := []\<rparr>)) (pre @ post)) e
              = Inr st')"
proof -
  let ?st0 = "normalize_rootDir (st\<lparr>buffers := []\<rparr>)"
  let ?k = "property_key (addBuffer_loop (mounts_of (rootDir st)) filePath None)"
  let ?s1 = "foldl visit_file ?st0 pre"
  let ?s2 = "visit_file ?s1 (name, filePath, content)"
  have whole: "load_sentinels (foldl visit_file ?st0 (pre @ (name, filePath, content) # post)) e
                 = Inr st'"
    using updateBuffer_as_fold [OF assms(1,2)] by (simp add: assms(3))
  have fr: "mounts_of (rootDir ?s1) = mounts_of (rootDir st)"
    "bufferingMaxSize ?s1 = bufferingMaxSize st" "hasMine ?s1 name = hasMine st name"
    "mounts_of (rootDir ?s2) = mounts_of (rootDir st)"
    by simp_all
  have at_cap: ?thesis if h: "hasMine st name" and c: "int (length content) = bufferingMaxSize st"
    and o: "int (length content) \<noteq> bufferingMaxSize st + 1"
  proof -
    have v: "?s2 = addBuffer ?s1 filePath content"
      using h c by (simp add: visit_file_def search_file_def fr)
    have now: "map_of (buffers ?s2) ?k = Some content"
      using addBuffer_stores [of ?s1 filePath content] by (simp add: v fr)
    have fin: "foldl visit_file ?st0 (pre @ (name, filePath, content) # post)
                 = foldl visit_file ?s2 post"
      by simp
    from fold_visit_later [of ?s2 post ?k]
    have later: "map_of (buffers (foldl visit_file ?s2 post)) ?k = Some content
       \<or> (\<exists>(name', filePath', content') \<in> set post.
             property_key (addBuffer_loop (mounts_of (rootDir st)) filePath' None) = ?k
             \<and> map_of (buffers (foldl visit_file ?s2 post)) ?k = Some content')"
      by (simp only: now fr)
    have final: "map_of (buffers st') ?k = Some content
       \<or> (\<exists>(name', filePath', content') \<in> set post.
             property_key (addBuffer_loop (mounts_of (rootDir st)) filePath' None) = ?k
             \<and> map_of (buffers st') ?k = Some content')
       \<or> ?k = notFound_key \<or> ?k = listNavigator_key"
    proof (cases "?k = notFound_key \<or> ?k = listNavigator_key")
      case True
      then show ?thesis by blast
    next
      case False
      then have eq: "map_of (buffers (foldl visit_file ?s2 post)) ?k = map_of (buffers st') ?k"
        using load_sentinels_other_keys [OF whole [unfolded fin], of ?k] by simp
      from later have "map_of (buffers st') ?k = Some content
       \<or> (\<exists>(name', filePath', content') \<in> set post.
             property_key (addBuffer_loop (mounts_of (rootDir st)) filePath' None) = ?k
             \<and> map_of (buffers st') ?k = Some content')"
        unfolding eq .
      then show ?thesis by blast
    qed
    from whole now final o show ?thesis by simp
  qed
  have over: ?thesis if o: "int (length content) = bufferingMaxSize st + 1"
  proof -
    have "?s2 = ?s1"
      using o by (simp add: visit_file_def search_file_def fr)
    then have "foldl visit_file ?st0 (pre @ (name, filePath, content) # post)
                 = foldl visit_file ?st0 (pre @ post)"
      by simp
    with whole o show ?thesis by simp
  qed
  show ?thesis
  proof (cases "int (length content) = bufferingMaxSize st + 1")
    case True
    then show ?thesis by (rule over)
  next
    case False
    show ?thesis
    proof (cases "hasMine st name \<and> int (length content) = bufferingMaxSize st")
      case True
      with False show ?thesis by (intro at_cap) simp_all
    next
      case False
      with \<open>int (length content) \<noteq> bufferingMaxSize st + 1\<close> whole show ?thesis by auto
    qed
  qed
qed

theorem C7_rebuild_size_boundary_witness:
  "buffering (initial\<lparr>bufferingMaxSize := 3\<rparr>)
   \<and> hasMine (initial\<lparr>bufferingMaxSize := 3\<rparr>) ''a.txt''
   \<and> mount_files disk_sizes (mounts_of (rootDir (initial\<lparr>bufferingMaxSize := 3\<rparr>)))
       = [(''a.txt'', ''htdocs/sub/a.txt'', ''abc''), (''b.txt'', ''htdocs/b.txt'', ''abcd'')]
   \<and> updateBuffer (initial\<lparr>bufferingMaxSize := 3\<rparr>)
         \<lparr> disk = disk_sizes, module_dirname = [], now = clock \<rparr>
       = Inr (initial\<lparr>rootDir := Mounted [(''/'', ''htdocs'')], bufferingMaxSize := 3,
                buffers := [(''/sub/a.txt'', ''abc'')]\<rparr>)
   \<and> load_sentinels
        (foldl visit_file (normalize_rootDir (initial\<lparr>bufferingMaxSize := 3, buffers := []\<rparr>))
           [(''a.txt'', ''htdocs/sub/a.txt'', ''abc'')])
        \<lparr> disk = disk_sizes, module_dirname = [], now = clock \<rparr>
       = Inr (initial\<lparr>rootDir := Mounted [(''/'', ''htdocs'')], bufferingMaxSize := 3,
                buffers := [(''/sub/a.txt'', ''abc'')]\<rparr>)"
proof -
  let ?st = "initial\<lparr>bufferingMaxSize := 3\<rparr>"
  let ?e = "\<lparr> disk = disk_sizes, module_dirname = [], now = clock \<rparr>"
  let ?st' = "initial\<lparr>rootDir := Mounted [(''/'', ''htdocs'')], bufferingMaxSize := 3,
                buffers := [(''/sub/a.txt'', ''abc'')]\<rparr>"
  have hm: "hasMine st ''a.txt''" "hasMine st ''b.txt''" if "mimes st = DefaultMimes" for st
    using that
    by (simp_all add: hasMine_def get_property_def extname_def basename_def
        strip_trailing_slashes_def DefaultMimes_def truthy_def)
  have b: "buffering ?st" and ha: "hasMine ?st ''a.txt''"
    by (simp_all add: hm initial_def)
  have rd: "readdirSync disk_sizes ''htdocs''
              = Some [(''sub'', Dir [(''a.txt'', File ''abc'')]), (''b.txt'', File ''abcd'')]"
    by (simp add: readdirSync_def lookup_path_def disk_sizes_def)
  have mf: "mount_files (disk ?e) (mounts_of (rootDir ?st))
              = [] @ (''a.txt'', ''htdocs/sub/a.txt'', ''abc'') # [(''b.txt'', ''htdocs/b.txt'', ''abcd'')]"
    "mount_files (disk ?e) (mounts_of (rootDir ?st))
              = [(''a.txt'', ''htdocs/sub/a.txt'', ''abc'')] @ (''b.txt'', ''htdocs/b.txt'', ''abcd'') # []"
    by (simp_all add: initial_def mounts_of_def rd)
  have u: "updateBuffer ?st ?e = Inr ?st'"
    by (simp add: updateBuffer_def load_sentinels_def initial_def normalize_rootDir_def
        mounts_of_def search_def rd search_file_def hm addBuffer_def indexOf_is_0_def
        buffer_key_def property_key_def)
  have k: "property_key (addBuffer_loop (mounts_of (rootDir ?st)) ''htdocs/sub/a.txt'' None)
             = ''/sub/a.txt''"
    by (simp add: initial_def mounts_of_def indexOf_is_0_def buffer_key_def property_key_def)
  show ?thesis
    using C7_rebuild_size_boundary [OF b u mf(1)] C7_rebuild_size_boundary [OF b u mf(2)]
      b ha u mf(1)
    by (simp add: k)
qed

subsection \<open>A path outside every mount\<close>

text \<open>
  Claim C8. The claim asks that \<open>addBuffer\<close> leaves the store as it is when no mount
  directory starts the path. The loop then leaves \<open>fileName\<close> undefined and the
  assignment after it still runs: the content lands under the property name
  \<^verbatim>\<open>undefined\<close>. Here: the default root \<^verbatim>\<open>htdocs\<close> and the path \<^verbatim>\<open>other/x.txt\<close>.
\<close>

theorem C8_addBuffer_unmatched_adds_key:
  "filter (\<lambda>(burl, dir). prefix dir ''other/x.txt'') (mounts_of (rootDir initial)) = []
   \<and> buffers initial = []
   \<and> buffers (addBuffer initial ''other/x.txt'' content) = [(''undefined'', content)]"
  by (simp add: initial_def mounts_of_def addBuffer_def normalize_rootDir_def
      indexOf_is_0_def property_key_def)

lemma addBuffer_unmatched:
  assumes "\<forall>(burl, dir) \<in> set (mounts_of (rootDir st)). \<not> prefix dir filePath"
  shows "buffers (addBuffer st filePath content) = AList.update ''undefined'' content (buffers st)"
  using addBuffer_loop_unmatched [OF assms, of None]
  by (simp add: addBuffer_def Let_def property_key_def)

subsection \<open>What the resolver and the loader leave alone\<close>

lemma split_join_nonempty: "rep \<noteq> [] \<Longrightarrow> s \<noteq> [] \<Longrightarrow> split_join sep rep s \<noteq> []"
  by (cases s) auto

lemma getUrl_loop_inst:
  "snd (getUrl_loop st d b l) = st \<or> snd (getUrl_loop st d b l) = normalize_rootDir st"
proof (induction l arbitrary: st)
  case Nil
  then show ?case by simp
next
  case (Cons c l)
  from Cons.IH [of st] Cons.IH [of "normalize_rootDir st"]
  show ?case by (auto simp: Let_def)
qed

lemma getUrl_loop_url:
  "fst (getUrl_loop st d b l) = b \<or> fst (getUrl_loop st d b l) \<in> set l"
proof (induction l arbitrary: st)
  case Nil
  then show ?case by simp
next
  case (Cons c l)
  from Cons.IH [of st] Cons.IH [of "normalize_rootDir st"]
  show ?case by (auto simp: Let_def)
qed

lemma getUrl_inst:
  "snd (getUrl st d b) = st \<or> snd (getUrl st d b) = normalize_rootDir st"
  by (simp add: getUrl_def Let_def getUrl_loop_inst)

lemma getUrl_empty: 
  assumes "fst (getUrl st d b) = []"
  shows "b = []"
proof -
  let ?u0 = "split_first CHR ''?'' b"
  let ?u = "if ?u0 \<noteq> ''/'' \<and> ends_with_slash ?u0 then butlast ?u0 else ?u0"
  let ?l = "map (\<lambda>index. split_join ''//'' ''/'' (?u @ ''/'' @ index)) (directoryIndexs st)"
  have "split_join ''//'' ''/'' (?u @ ''/'' @ index) \<noteq> []" for index
    by (rule split_join_nonempty) simp_all
  then have "[] \<notin> (\<lambda>index. split_join ''//'' ''/'' (?u @ ''/'' @ index)) ` set (directoryIndexs st)"
    by (metis (no_types, lifting) imageE)
  then have "[] \<notin> set ?l"
    by (simp only: set_map not_False_eq_True)
  moreover have "fst (getUrl st d b) = fst (getUrl_loop st d b ?l)"
    by (simp add: getUrl_def Let_def)
  ultimately show ?thesis
    using getUrl_loop_url [of st d b ?l] assms by auto
qed

lemma readFile_inst:
  "snd (readFile st d t) = st \<or> snd (readFile st d t) = normalize_rootDir st"
  by (auto simp: readFile_def Let_def split: option.splits)

lemma error_normalize [simp]: "error (normalize_rootDir st) d res = error st d res"
  by (simp add: error_def cong: notfound.case_cong if_cong)

lemma getDirectories_normalize [simp]:
  "getDirectories (normalize_rootDir st) u = getDirectories st u"
  by (simp add: getDirectories_def)

lemma isDirectory_normalize [simp]:
  "isDirectory (normalize_rootDir st) e req res = isDirectory st e req res"
  by (simp add: isDirectory_def cong: if_cong option.case_cong)

lemma isDirectory_True: "isDirectory st e req res = Inr (b, res') \<Longrightarrow> b"
  by (auto simp: isDirectory_def Let_def split: if_splits option.splits)

subsection \<open>Sending headers\<close>

lemma setHeader_loop_Inr:
  "setHeader_loop res hs = Inr res' \<Longrightarrow> res' = res\<lparr>header_calls := header_calls res @ hs\<rparr>"
proof (induction hs arbitrary: res)
  case Nil
  then show ?case by simp
next
  case (Cons h hs)
  obtain name v where h: "h = (name, v)" by (cases h)
  from Cons.prems obtain res1 where
    r: "res_setHeader res name v = Inr res1" and l: "setHeader_loop res1 hs = Inr res'"
    by (auto simp: h split: sum.splits)
  from r have "res1 = res\<lparr>header_calls := header_calls res @ [(name, v)]\<rparr>"
    by (auto simp: res_setHeader_def split: if_splits)
  with Cons.IH [OF l] show ?case by (simp add: h)
qed


lemma valid_content_type: "valid_header_name ''content-type''"
  by (simp add: valid_header_name_def token_chars_def)

lemma valid_text_plain: "valid_header_value ''text/plain''"
  by (simp add: valid_header_value_def valid_header_char_def)

lemma set_content_type_on_fresh:
  "headers st = [(''content-type'', ''text/plain'')] \<Longrightarrow>
   setHeader st (fresh_response\<lparr>statusCode := 200\<rparr>)
     = Inr \<lparr> statusCode = 200, header_calls = [(''content-type'', ''text/plain'')],
             written = [], ended = False \<rparr>"
  by (simp add: setHeader_def res_setHeader_def headersSent_def fresh_response_def
      valid_content_type valid_text_plain)

subsection \<open>The paths through the request handler\<close>

lemma same_but_rootDir:
  assumes "st2 = st \<or> st2 = normalize_rootDir st"
  obtains r where "st2 = st\<lparr>rootDir := r\<rparr>" "mounts_of r = mounts_of (rootDir st)"
  using assms
proof
  assume "st2 = st"
  then have "st2 = st\<lparr>rootDir := rootDir st\<rparr>" by simp
  then show thesis by (rule that) simp
next
  assume "st2 = normalize_rootDir st"
  then have "st2 = st\<lparr>rootDir := Mounted (mounts_of (rootDir st))\<rparr>"
    by (simp add: normalize_rootDir_def)
  then show thesis by (rule that) simp
qed

text \<open>Every call of \<open>listen\<close> takes one of four ways: it sends a file (which may
  throw), it hands over to the not-found handler, it lists a directory, or it throws
  for want of a listing template.\<close>

lemma listen_cases:
  obtains
    (sent) st2 content mime where
      "st2 = st \<or> st2 = normalize_rootDir st" "mime \<noteq> []"
      "listen st e req res = ok_outcome st2 res content mime"
  | (missed) st2 where
      "st2 = st \<or> st2 = normalize_rootDir st"
      "listen st e req res = Inr (error_outcome st2 (disk e) res)"
  | (listed) st2 res' where
      "st2 = st \<or> st2 = normalize_rootDir st"
      "split_first CHR ''?'' (req_url req) = []" "listNavigator st"
      "isDirectory st e req res = Inr (True, res')"
      "listen st e req res
         = Inr \<lparr> returned = True, inst = st2, response = res', log_writes = [] \<rparr>"
  | (no_template) st2 where
      "st2 = st \<or> st2 = normalize_rootDir st"
      "split_first CHR ''?'' (req_url req) = []" "listNavigator st" "buffering st"
      "map_of (buffers st) listNavigator_key = None"
      "listen st e req res = Inl \<lparr> raised = TypeError, inst_then = st2, response_then = res \<rparr>"
proof -
  let ?url0 = "split_first CHR ''?'' (req_url req)"
  obtain u st1 where g: "getUrl st (disk e) ?url0 = (u, st1)"
    by (cases "getUrl st (disk e) ?url0")
  have s1: "st1 = st \<or> st1 = normalize_rootDir st"
    using getUrl_inst [of st "disk e" ?url0] by (simp add: g)
  show thesis
  proof (cases "u = []")
    case True
    then have u0: "?url0 = []"
      using getUrl_empty [of st "disk e" ?url0] by (simp add: g)
    show ?thesis
    proof (cases "listNavigator st1")
      case ln: True
      with s1 have ln': "listNavigator st" by auto
      have i1: "isDirectory st1 e req res = isDirectory st e req res"
        using s1 by auto
      show ?thesis
      proof (cases "isDirectory st e req res")
        case (Inl err)
        then have t: "err = TypeError" "buffering st" "map_of (buffers st) listNavigator_key = None"
          by (auto simp: isDirectory_def Let_def split: if_splits option.splits)
        from True ln Inl t(1)
        have "listen st e req res
                = Inl \<lparr> raised = TypeError, inst_then = st1, response_then = res \<rparr>"
          by (simp add: listen_def g i1)
        with s1 u0 ln' t(2,3) show ?thesis by (rule no_template)
      next
        case (Inr p)
        obtain b res' where p: "p = (b, res')" by (cases p)
        from Inr p have b by (auto intro: isDirectory_True)
        with Inr p have i: "isDirectory st e req res = Inr (True, res')" by simp
        from True ln i
        have "listen st e req res
                = Inr \<lparr> returned = True, inst = st1, response = res', log_writes = [] \<rparr>"
          by (simp add: listen_def g i1)
        with s1 u0 ln' i show ?thesis by (rule listed)
      qed
    next
      case False
      with True have "listen st e req res = Inr (error_outcome st1 (disk e) res)"
        by (simp add: listen_def g)
      with s1 show ?thesis by (rule missed)
    qed
  next
    case False
    obtain buff st2 where r: "readFile st1 (disk e) u = (buff, st2)"
      by (cases "readFile st1 (disk e) u")
    have "st2 = st1 \<or> st2 = normalize_rootDir st1"
      using readFile_inst [of st1 "disk e" u] by (simp add: r)
    with s1 have s2: "st2 = st \<or> st2 = normalize_rootDir st" by auto
    let ?hit = "case buff of
                  Inl err \<Rightarrow> None
                | Inr None \<Rightarrow> None
                | Inr (Some (content, mime)) \<Rightarrow>
                    (if \<not> truthy mime then None else Some (content, property_key mime))"
    show ?thesis
    proof (cases ?hit)
      case None
      with False have "listen st e req res = Inr (error_outcome st2 (disk e) res)"
        by (simp add: listen_def g r)
      with s2 show ?thesis by (rule missed)
    next
      case (Some cm)
      obtain content mime where cm: "cm = (content, mime)" by (cases cm)
      from Some cm have "mime \<noteq> []"
        by (auto simp: truthy_def property_key_def split: sum.splits option.splits if_splits)
      moreover from False Some cm have "listen st e req res = ok_outcome st2 res content mime"
        by (simp add: listen_def g r)
      ultimately show ?thesis using s2 by (intro sent)
    qed
  qed
qed

lemma error_rootDir [simp]: "error (st\<lparr>rootDir := r\<rparr>) d res = error st d res"
  by (simp add: error_def cong: notfound.case_cong if_cong)

text \<open>Sending a file, when it goes through and when it throws.\<close>

lemma ok_outcome_Inr:
  assumes "st2 = st \<or> st2 = normalize_rootDir st"
    and "ok_outcome st2 res content mime = Inr out"
  shows "returned out
   \<and> headers (inst out) = AList.update ''content-type'' mime (headers st)
   \<and> (inst out)\<lparr>rootDir := rootDir st, headers := headers st\<rparr> = st
   \<and> mounts_of (rootDir (inst out)) = mounts_of (rootDir st)
   \<and> (\<exists>bytes. content = Buffer bytes
        \<and> response out
            = \<lparr> statusCode = 200,
                header_calls = header_calls res @ AList.update ''content-type'' mime (headers st),
                written = written res @ [bytes], ended = True \<rparr>)"
proof -
  from assms(1) obtain r where st2: "st2 = st\<lparr>rootDir := r\<rparr>"
    and r: "mounts_of r = mounts_of (rootDir st)"
    by (rule same_but_rootDir)
  let ?hs = "AList.update ''content-type'' mime (headers st)"
  from assms(2) obtain res1 bytes where
    h: "setHeader_loop (res\<lparr>statusCode := 200\<rparr>) ?hs = Inr res1"
    and c: "content = Buffer bytes"
    and o: "out = \<lparr> returned = True, inst = st\<lparr>rootDir := r, headers := ?hs\<rparr>,
                    response = res_end (res_write res1 bytes),
                    log_writes = log (st\<lparr>rootDir := r, headers := ?hs\<rparr>) (logAccess st) \<rparr>"
    by (auto simp: ok_outcome_def Let_def setHeader_def st2 split: sum.splits loaded.splits)
  from setHeader_loop_Inr [OF h] o c r show ?thesis
    by (simp add: res_end_def res_write_def)
qed


lemma error_outcome_normalize:
  assumes "st2 = st \<or> st2 = normalize_rootDir st"
  shows "returned (error_outcome st2 d res) = fst (error st d res)
   \<and> response (error_outcome st2 d res) = snd (error st d res)
   \<and> headers (inst (error_outcome st2 d res)) = headers st
   \<and> (inst (error_outcome st2 d res))\<lparr>rootDir := rootDir st, headers := headers st\<rparr> = st
   \<and> mounts_of (rootDir (inst (error_outcome st2 d res))) = mounts_of (rootDir st)"
  using assms
  by (elim same_but_rootDir) (simp add: error_outcome_def)

lemma error_forms:
  "error st d res = (False, res) \<and> notFound st = NFBool False
   \<or> error st d res = (True, res_end (res\<lparr>statusCode := 404\<rparr>))
   \<or> (\<exists>content. error st d res = (True, res_end (res_write (res\<lparr>statusCode := 404\<rparr>) content)))
   \<or> error st d res = (True, res_end (res_write res ''ERROR''))"
  by (auto simp: error_def split: notfound.splits option.splits)


lemma isDirectory_forms:
  assumes "isDirectory st e req res = Inr (b, res')"
  shows "(buffering st \<and> (\<exists>page. res' = res_end (res_write res page)))
         \<or> (\<not> buffering st \<and> res' = res)"
  using assms by (auto simp: isDirectory_def Let_def split: if_splits option.splits)

subsection \<open>Two requests evaluated\<close>


lemma initial_misses:
  "listen initial env_empty \<lparr>req_url = ''/x.txt''\<rparr> fresh_response
     = Inr \<lparr> returned = False, inst = initial\<lparr>rootDir := Mounted [(''/'', ''htdocs'')]\<rparr>,
             response = fresh_response, log_writes = [] \<rparr>"
  by (simp add: listen_def getUrl_def split_first_def ends_with_slash_def initial_def env_empty_def
      readFile_def read_buffers_def Object_prototype_def keys_def normalize_rootDir_def
      mounts_of_def readFile_path_def existsSync_def
      lookup_path_def truthy_def error_outcome_def error_def)

subsection \<open>The not-found fallback\<close>

text \<open>
  Claim C10. When \<open>notFound\<close> is a page path and the page cannot be had (no sentinel
  in the store under buffering, or the disk read throws without buffering), the
  not-found handler writes the body \<^verbatim>\<open>ERROR\<close>, ends the response and leaves the
  status code as it was (200 on a fresh response, not 404); and every call of
  \<open>listen\<close> on such an instance that returns, returns true.
\<close>

theorem C10_error_fallback_keeps_status:
  assumes "notFound st = NFPage page"
    and "(buffering st \<and> map_of (buffers st) notFound_key = None)
         \<or> (\<not> buffering st \<and> readFileSync d page = None)"
  shows "error st d res = (True, res_end (res_write res ''ERROR''))
       \<and> statusCode (snd (error st d res)) = statusCode res
       \<and> written (snd (error st d res)) = written res @ [''ERROR'']
       \<and> ended (snd (error st d res))
       \<and> (\<forall>e req out. disk e = d \<longrightarrow> listen st e req res = Inr out \<longrightarrow> returned out)"
proof -
  have e: "error st d res = (True, res_end (res_write res ''ERROR''))"
    using assms by (auto simp: error_def)
  have "returned out" if d: "disk e = d" and l: "listen st e req res = Inr out" for e req out
  proof (cases rule: listen_cases [of st e req res])
    case (sent st2 content mime)
    with l have "ok_outcome st2 res content mime = Inr out" by simp
    from ok_outcome_Inr [OF sent(1) this] show ?thesis by simp
  next
    case (missed st2)
    with l have "out = error_outcome st2 d res" by (simp add: d)
    with error_outcome_normalize [OF missed(1), of d res] show ?thesis by (simp add: e)
  next
    case (listed st2 res')
    with l show ?thesis by auto
  next
    case (no_template st2)
    with l show ?thesis by simp
  qed
  with e show ?thesis by (simp add: res_end_def res_write_def)
qed

theorem C10_error_fallback_keeps_status_witness:
  "notFound (initial\<lparr>notFound := NFPage ''404.html'', buffering := False\<rparr>) = NFPage ''404.html''
   \<and> \<not> buffering (initial\<lparr>notFound := NFPage ''404.html'', buffering := False\<rparr>)
   \<and> readFileSync (Dir []) ''404.html'' = None
   \<and> error (initial\<lparr>notFound := NFPage ''404.html'', buffering := False\<rparr>) (Dir []) fresh_response
       = (True, \<lparr> statusCode = 200, header_calls = [], written = [''ERROR''], ended = True \<rparr>)
   \<and> disk env_empty = Dir []
   \<and> listen (initial\<lparr>notFound := NFPage ''404.html'', buffering := False\<rparr>) env_empty
        \<lparr>req_url = ''/x.txt''\<rparr> fresh_response
       = Inr (error_outcome (initial\<lparr>rootDir := Mounted [(''/'', ''htdocs'')],
                notFound := NFPage ''404.html'', buffering := False\<rparr>) (Dir []) fresh_response)
   \<and> returned (error_outcome (initial\<lparr>rootDir := Mounted [(''/'', ''htdocs'')],
                notFound := NFPage ''404.html'', buffering := False\<rparr>) (Dir []) fresh_response)"
proof -
  let ?st = "initial\<lparr>notFound := NFPage ''404.html'', buffering := False\<rparr>"
  have n: "notFound ?st = NFPage ''404.html''" by simp
  have r: "readFileSync (Dir []) ''404.html'' = None"
    by (simp add: readFileSync_def lookup_path_def)
  have h: "(buffering ?st \<and> map_of (buffers ?st) notFound_key = None)
           \<or> (\<not> buffering ?st \<and> readFileSync (Dir []) ''404.html'' = None)"
    by (simp add: r)
  have d: "disk env_empty = Dir []" by (simp add: env_empty_def)
  have l: "listen ?st env_empty \<lparr>req_url = ''/x.txt''\<rparr> fresh_response
             = Inr (error_outcome (initial\<lparr>rootDir := Mounted [(''/'', ''htdocs'')],
                      notFound := NFPage ''404.html'', buffering := False\<rparr>) (Dir []) fresh_response)"
    by (simp add: listen_def getUrl_def split_first_def ends_with_slash_def initial_def env_empty_def
        readFile_def normalize_rootDir_def mounts_of_def readFile_path_def existsSync_def
        lookup_path_def truthy_def)
  show ?thesis
    using C10_error_fallback_keeps_status [OF n h, of fresh_response] n r d l
    by (simp add: fresh_response_def res_end_def res_write_def)
qed

subsection \<open>The return value of the request handler\<close>

text \<open>Whenever \<open>listen\<close> returns, it returns false only with the response untouched
  and \<open>notFound\<close> the boolean false, and true only with a response that was ended,
  except where the navigator is reached without buffering.\<close>

lemma listen_return_value:
  assumes "listen st e req res = Inr out"
  shows "(\<not> returned out \<longrightarrow> notFound st = NFBool False \<and> response out = res)
       \<and> (returned out \<longrightarrow>
             (\<exists>content mime. mime \<noteq> [] \<and> response out =
                 \<lparr> statusCode = 200,
                   header_calls = header_calls res @ AList.update ''content-type'' mime (headers st),
                   written = written res @ [content], ended = True \<rparr>)
           \<or> response out = res_end (res\<lparr>statusCode := 404\<rparr>)
           \<or> (\<exists>content. response out = res_end (res_write (res\<lparr>statusCode := 404\<rparr>) content))
           \<or> response out = res_end (res_write res ''ERROR'')
           \<or> (\<exists>page. split_first CHR ''?'' (req_url req) = [] \<and> listNavigator st \<and> buffering st
                 \<and> response out = res_end (res_write res page))
           \<or> (split_first CHR ''?'' (req_url req) = [] \<and> listNavigator st \<and> \<not> buffering st
                 \<and> response out = res))"
proof (cases rule: listen_cases [of st e req res])
  case (sent st2 content mime)
  with assms have "ok_outcome st2 res content mime = Inr out" by simp
  from ok_outcome_Inr [OF sent(1) this] sent(2) show ?thesis by auto
next
  case (missed st2)
  with assms have "out = error_outcome st2 (disk e) res" by simp
  then show ?thesis
    using error_outcome_normalize [OF missed(1), of "disk e" res] error_forms [of st "disk e" res]
    by auto
next
  case (listed st2 res')
  with assms show ?thesis
    using isDirectory_forms [OF listed(4)] by auto
next
  case (no_template st2)
  with assms show ?thesis by simp
qed


subsection \<open>What a request changes in the instance\<close>




subsection \<open>The directory listing scenario\<close>

text \<open>The navigator is only ever reached by a request whose path is empty: any other
  request is answered with a file or by the not-found handler.\<close>

lemma listen_nonempty_path:
  assumes "listen st e req res = Inr out"
    and "split_first CHR ''?'' (req_url req) \<noteq> []"
  shows "(\<exists>st2 content mime. ok_outcome st2 res content mime = Inr out)
         \<or> (\<exists>st2. out = error_outcome st2 (disk e) res)"
proof (cases rule: listen_cases [of st e req res])
  case (sent st2 content mime)
  with assms(1) show ?thesis by auto
next
  case (missed st2)
  with assms(1) show ?thesis by auto
next
  case (listed st2 res')
  with assms(2) show ?thesis by simp
next
  case (no_template st2)
  with assms(2) show ?thesis by simp
qed

text \<open>
  Claim C1. The scenario: buffering on, navigator on, no index names, the store holding
  \<^verbatim>\<open>/docs/a.txt\<close> and \<^verbatim>\<open>/docs/b.txt\<close> (as \<open>updateBuffer\<close> builds it), request
  \<^verbatim>\<open>/docs\<close>. The claim expects the listing page and the result true. The resolver
  hands back the request path, which is not empty, so \<open>listen\<close> never reaches the
  navigator: the loader finds no regular file and the not-found handler answers,
  whatever the not-found policy; with the default policy nothing is written and the
  result is false. The navigator itself would have produced the page with two rows.
  (By \<open>listen_nonempty_path\<close> this holds for every request with a non-empty path.)
\<close>

theorem C1_listing_not_reached:
  "updateBuffer (initial\<lparr>listNavigator := True\<rparr>) (env_docs template) = Inr (web_docs template)
   \<and> getUrl (web_docs template) (disk_docs template) ''/docs'' = (''/docs'', web_docs template)
   \<and> listen (web_docs template) (env_docs template) \<lparr>req_url = ''/docs''\<rparr> fresh_response
       = Inr \<lparr> returned = False, inst = web_docs template, response = fresh_response,
               log_writes = [] \<rparr>
   \<and> listen ((web_docs template)\<lparr>notFound := nf\<rparr>) (env_docs template)
         \<lparr>req_url = ''/docs''\<rparr> fresh_response
       = Inr (error_outcome ((web_docs template)\<lparr>notFound := nf\<rparr>) (disk_docs template)
               fresh_response)
   \<and> isDirectory (web_docs template) (env_docs template) \<lparr>req_url = ''/docs''\<rparr> fresh_response
       = Inr (True, res_end (res_write fresh_response
           (listing_page template ''/docs'' [''/docs/a.txt'', ''/docs/b.txt''] clock)))"
proof -
  have lk: "lookup_path (disk_docs template) ''htdocs/docs''
              = Some (Dir [(''a.txt'', File ''AAA''), (''b.txt'', File ''BBB'')])"
    by (simp add: lookup_path_def disk_docs_def)
  have rd: "readdirSync (disk_docs template) ''htdocs''
              = Some [(''docs'', Dir [(''a.txt'', File ''AAA''), (''b.txt'', File ''BBB'')])]"
    by (simp add: readdirSync_def lookup_path_def disk_docs_def)
  have tp: "readFileSync (disk_docs template) ''/module/listnavigator/index.html'' = Some template"
    by (simp add: readFileSync_def lookup_path_def disk_docs_def)
  have hm: "hasMine st ''a.txt''" "hasMine st ''b.txt''" if "mimes st = DefaultMimes" for st
    using that
    by (simp_all add: hasMine_def get_property_def extname_def basename_def
        strip_trailing_slashes_def DefaultMimes_def truthy_def)
  have u: "updateBuffer (initial\<lparr>listNavigator := True\<rparr>) (env_docs template)
             = Inr (web_docs template)"
    by (simp add: updateBuffer_def load_sentinels_def env_docs_def initial_def
        normalize_rootDir_def mounts_of_def search_def rd search_file_def hm addBuffer_def
        indexOf_is_0_def buffer_key_def property_key_def web_docs_def notFound_key_def
        listNavigator_key_def tp)
  have g: "getUrl st (disk_docs template) ''/docs'' = (''/docs'', st)" if "directoryIndexs st = []" for st
    using that by (simp add: getUrl_def split_first_def ends_with_slash_def)
  have r: "readFile ((web_docs template)\<lparr>notFound := nf\<rparr>) (disk_docs template) ''/docs''
             = (Inr None, (web_docs template)\<lparr>notFound := nf\<rparr>)" for nf
    by (simp add: readFile_def read_buffers_def Object_prototype_def keys_def web_docs_def
        initial_def normalize_rootDir_def mounts_of_def
        readFile_path_def existsSync_def stat_isFile_def lk truthy_def)
  have l: "listen ((web_docs template)\<lparr>notFound := nf\<rparr>) (env_docs template)
             \<lparr>req_url = ''/docs''\<rparr> fresh_response
           = Inr (error_outcome ((web_docs template)\<lparr>notFound := nf\<rparr>) (disk_docs template)
               fresh_response)" for nf
  proof -
    have "directoryIndexs ((web_docs template)\<lparr>notFound := nf\<rparr>) = []"
      by (simp add: web_docs_def initial_def)
    then show ?thesis
      by (simp add: listen_def split_first_def g r env_docs_def)
  qed
  have w: "(web_docs template)\<lparr>notFound := NFBool False\<rparr> = web_docs template"
    by (simp add: web_docs_def initial_def)
  have l0: "listen (web_docs template) (env_docs template) \<lparr>req_url = ''/docs''\<rparr> fresh_response
       = Inr \<lparr> returned = False, inst = web_docs template, response = fresh_response,
               log_writes = [] \<rparr>"
    using l [of "NFBool False"] unfolding w
    by (simp add: error_outcome_def error_def) (simp add: web_docs_def initial_def)
  have i: "isDirectory (web_docs template) (env_docs template) \<lparr>req_url = ''/docs''\<rparr> fresh_response
       = Inr (True, res_end (res_write fresh_response
           (listing_page template ''/docs'' [''/docs/a.txt'', ''/docs/b.txt''] clock)))"
    by (simp add: isDirectory_def split_first_def ends_with_slash_def web_docs_def initial_def
        listNavigator_key_def getDirectories_def keys_def indexOf_is_0_def env_docs_def)
  have "directoryIndexs (web_docs template) = []"
    by (simp add: web_docs_def initial_def)
  with u g [of "web_docs template"] l0 l i show ?thesis
    by simp
qed

subsection \<open>Several mounts\<close>

text \<open>
  Claim C3. The claim: the loader decides for the first regular file in the nested,
  mount-major order, and a later mount cannot change a decision an earlier mount
  made through an index file. In \<open>readFile\<close> the \<^verbatim>\<open>break\<close> after an index match
  leaves the inner loop only, so the next mount is still tried and its match
  replaces the decision. Here \<^verbatim>\<open>/a/x\<close> is covered by the mounts \<^verbatim>\<open>/\<close> and
  \<^verbatim>\<open>/a\<close>; the first accepted path is \<^verbatim>\<open>dirA/a/x/index.html\<close>, the loader serves
  \<^verbatim>\<open>dirB/x/index.html\<close>.
\<close>

theorem C3_later_mount_replaces_index_match:
  "spec_candidate_paths web_nested_mounts ''/a/x'' (mounts_of (rootDir web_nested_mounts))
     = [''dirA/a/x'', ''dirA/a/x/index.html'', ''dirB/x'', ''dirB/x/index.html'']
   \<and> spec_first_accepted web_nested_mounts disk_nested_mounts ''/a/x''
        (mounts_of (rootDir web_nested_mounts)) = Some ''dirA/a/x/index.html''
   \<and> readFile_mounts web_nested_mounts disk_nested_mounts ''/a/x''
        (mounts_of (rootDir web_nested_mounts)) None = Some ''dirB/x/index.html''
   \<and> readFile web_nested_mounts disk_nested_mounts ''/a/x''
        = (Inr (Some (Buffer ''from dirB'', Some ''text/html'')), web_nested_mounts)"
proof -
  have m: "mounts_of (rootDir web_nested_mounts) = [(''/'', ''dirA''), (''/a'', ''dirB'')]"
    and n: "normalize_rootDir web_nested_mounts = web_nested_mounts"
    and u: "url web_nested_mounts = ''/''"
    and di: "directoryIndexs web_nested_mounts = [''index.html'']"
    and b: "\<not> buffering web_nested_mounts"
    and mi: "mimes web_nested_mounts = DefaultMimes"
    by (simp_all add: web_nested_mounts_def initial_def normalize_rootDir_def)
  have p: "readFile_path web_nested_mounts ''dirA'' ''/'' ''/a/x'' [] = ''dirA/a/x''"
    "readFile_path web_nested_mounts ''dirA'' ''/'' ''/a/x'' ''/index.html'' = ''dirA/a/x/index.html''"
    "readFile_path web_nested_mounts ''dirB'' ''/a'' ''/a/x'' [] = ''dirB/x''"
    "readFile_path web_nested_mounts ''dirB'' ''/a'' ''/a/x'' ''/index.html'' = ''dirB/x/index.html''"
    by (simp_all add: readFile_path_def u)
  have lk: "lookup_path disk_nested_mounts ''dirA/a/x'' = Some (Dir [(''index.html'', File ''from dirA'')])"
    "lookup_path disk_nested_mounts ''dirA/a/x/index.html'' = Some (File ''from dirA'')"
    "lookup_path disk_nested_mounts ''dirB/x'' = Some (Dir [(''index.html'', File ''from dirB'')])"
    "lookup_path disk_nested_mounts ''dirB/x/index.html'' = Some (File ''from dirB'')"
    by (simp_all add: lookup_path_def disk_nested_mounts_def)
  have c: "spec_candidate_paths web_nested_mounts ''/a/x'' (mounts_of (rootDir web_nested_mounts))
     = [''dirA/a/x'', ''dirA/a/x/index.html'', ''dirB/x'', ''dirB/x/index.html'']"
    by (simp add: spec_candidate_paths_def m di p)
  have f: "spec_first_accepted web_nested_mounts disk_nested_mounts ''/a/x''
        (mounts_of (rootDir web_nested_mounts)) = Some ''dirA/a/x/index.html''"
    unfolding spec_first_accepted_def c
    by (simp add: existsSync_def stat_isFile_def lk)
  have r: "readFile_mounts web_nested_mounts disk_nested_mounts ''/a/x''
        (mounts_of (rootDir web_nested_mounts)) None = Some ''dirB/x/index.html''"
    unfolding m by (simp add: di p existsSync_def stat_isFile_def lk)
  have g: "getMime web_nested_mounts ''dirB/x/index.html'' = Some ''text/html''"
    by (simp add: getMime_def get_property_def mi extname_def basename_def
        strip_trailing_slashes_def DefaultMimes_def)
  have "readFile web_nested_mounts disk_nested_mounts ''/a/x''
        = (Inr (Some (Buffer ''from dirB'', Some ''text/html'')), web_nested_mounts)"
    by (simp add: readFile_def b n r truthy_def property_key_def readFileSync_def lk g)
  with c f r show ?thesis by simp
qed

text \<open>
  Claim C4. The claim: the resolver's disk check strips the mount's url prefix from
  the candidate before joining it to the mount directory, as the loader does, so
  that \<^verbatim>\<open>/a/x\<close> resolves to \<^verbatim>\<open>/a/x/index.html\<close> on the mount \<^verbatim>\<open>/a\<close> over
  \<^verbatim>\<open>dirA\<close>. \<open>getUrl\<close> joins the directory and the whole candidate: it looks for
  \<^verbatim>\<open>dirA/a/x/index.html\<close>, finds nothing and hands back the request path, while
  the loader's path for the same candidate is \<^verbatim>\<open>dirA/x/index.html\<close>, which
  exists.
\<close>

theorem C4_resolver_keeps_mount_prefix:
  "getUrl web_mount_a disk_mount_a ''/a/x'' = (''/a/x'', web_mount_a)
   \<and> getUrl_exists disk_mount_a [(''/a'', ''dirA'')] ''/a/x/index.html'' = False
   \<and> split_join ''//'' ''/'' (''dirA'' @ ''/'' @ ''/a/x/index.html'') = ''dirA/a/x/index.html''
   \<and> existsSync disk_mount_a ''dirA/a/x/index.html'' = False
   \<and> readFile_path web_mount_a ''dirA'' ''/a'' ''/a/x'' ''/index.html'' = ''dirA/x/index.html''
   \<and> existsSync disk_mount_a ''dirA/x/index.html'' = True"
proof -
  have m: "mounts_of (rootDir web_mount_a) = [(''/a'', ''dirA'')]"
    and n: "normalize_rootDir web_mount_a = web_mount_a"
    and u: "url web_mount_a = ''/''"
    and di: "directoryIndexs web_mount_a = [''index.html'']"
    and b: "\<not> buffering web_mount_a"
    by (simp_all add: web_mount_a_def initial_def normalize_rootDir_def)
  have e1: "existsSync disk_mount_a ''dirA/a/x/index.html'' = False"
    and e2: "existsSync disk_mount_a ''dirA/x/index.html'' = True"
    by (simp_all add: existsSync_def lookup_path_def disk_mount_a_def)
  have x: "getUrl_exists disk_mount_a [(''/a'', ''dirA'')] ''/a/x/index.html'' = False"
    by (simp add: e1)
  have "getUrl web_mount_a disk_mount_a ''/a/x'' = (''/a/x'', web_mount_a)"
    by (simp add: getUrl_def split_first_def ends_with_slash_def di b n m e1 Let_def)
  moreover have "readFile_path web_mount_a ''dirA'' ''/a'' ''/a/x'' ''/index.html'' = ''dirA/x/index.html''"
    by (simp add: readFile_path_def u)
  ultimately show ?thesis using e1 e2 x by simp
qed

text \<open>
  Claim C5. Two mounts \<^verbatim>\<open>/a\<close> on \<^verbatim>\<open>dirA\<close> and \<^verbatim>\<open>/b\<close> on \<^verbatim>\<open>dirB\<close>, each
  directory with a file \<^verbatim>\<open>x.txt\<close> (of any content within the size cap). A request
  for \<^verbatim>\<open>/a/x.txt\<close> is answered with the bytes of dirA's file: from the store that
  \<open>updateBuffer\<close> builds (whatever the disk holds when the request comes), and from
  the disk when buffering is off.
\<close>

theorem C5_mount_a_serves_dirA:
  assumes "int (length contentA) \<le> 300000" and "int (length contentB) \<le> 300000"
  shows "updateBuffer (web_ab True) (env_ab contentA contentB)
           = Inr ((web_ab True)\<lparr>buffers := [(''/a/x.txt'', contentA), (''/b/x.txt'', contentB)]\<rparr>)
       \<and> listen ((web_ab True)\<lparr>buffers := [(''/a/x.txt'', contentA), (''/b/x.txt'', contentB)]\<rparr>)
            e \<lparr>req_url = ''/a/x.txt''\<rparr> fresh_response
           = Inr \<lparr> returned = True,
                   inst = (web_ab True)\<lparr>headers := [(''content-type'', ''text/plain'')],
                            buffers := [(''/a/x.txt'', contentA), (''/b/x.txt'', contentB)]\<rparr>,
                   response = \<lparr> statusCode = 200, header_calls = [(''content-type'', ''text/plain'')],
                                written = [contentA], ended = True \<rparr>,
                   log_writes = [] \<rparr>
       \<and> listen (web_ab False) (env_ab contentA contentB) \<lparr>req_url = ''/a/x.txt''\<rparr> fresh_response
           = Inr \<lparr> returned = True,
                   inst = (web_ab False)\<lparr>headers := [(''content-type'', ''text/plain'')]\<rparr>,
                   response = \<lparr> statusCode = 200, header_calls = [(''content-type'', ''text/plain'')],
                                written = [contentA], ended = True \<rparr>,
                   log_writes = [] \<rparr>"
proof -
  have rd: "readdirSync (disk_ab contentA contentB) ''dirA'' = Some [(''x.txt'', File contentA)]"
    "readdirSync (disk_ab contentA contentB) ''dirB'' = Some [(''x.txt'', File contentB)]"
    by (simp_all add: readdirSync_def lookup_path_def disk_ab_def)
  have lk: "lookup_path (disk_ab contentA contentB) ''dirA/x.txt'' = Some (File contentA)"
    by (simp add: lookup_path_def disk_ab_def)
  have hm: "hasMine st ''x.txt''" if "mimes st = DefaultMimes" for st
    using that
    by (simp add: hasMine_def get_property_def extname_def basename_def
        strip_trailing_slashes_def DefaultMimes_def truthy_def)
  have gm: "getMime st ''/a/x.txt'' = Some ''text/plain''"
    "getMime st ''dirA/x.txt'' = Some ''text/plain''" if "mimes st = DefaultMimes" for st
    using that
    by (simp_all add: getMime_def get_property_def extname_def basename_def
        strip_trailing_slashes_def DefaultMimes_def)
  have u: "updateBuffer (web_ab True) (env_ab contentA contentB)
           = Inr ((web_ab True)\<lparr>buffers := [(''/a/x.txt'', contentA), (''/b/x.txt'', contentB)]\<rparr>)"
    using assms
    by (simp add: updateBuffer_def load_sentinels_def web_ab_def initial_def normalize_rootDir_def
        mounts_of_def env_ab_def search_def rd search_file_def hm addBuffer_def indexOf_is_0_def
        buffer_key_def property_key_def)
  have g: "getUrl st d ''/a/x.txt'' = (''/a/x.txt'', st)" if "directoryIndexs st = []" for st d
    using that by (simp add: getUrl_def split_first_def ends_with_slash_def)
  have l1: "listen ((web_ab True)\<lparr>buffers := [(''/a/x.txt'', contentA), (''/b/x.txt'', contentB)]\<rparr>)
            e \<lparr>req_url = ''/a/x.txt''\<rparr> fresh_response
           = Inr \<lparr> returned = True,
                   inst = (web_ab True)\<lparr>headers := [(''content-type'', ''text/plain'')],
                            buffers := [(''/a/x.txt'', contentA), (''/b/x.txt'', contentB)]\<rparr>,
                   response = \<lparr> statusCode = 200, header_calls = [(''content-type'', ''text/plain'')],
                                written = [contentA], ended = True \<rparr>,
                   log_writes = [] \<rparr>"
    by (simp add: listen_def split_first_def g web_ab_def initial_def readFile_def
        read_buffers_def gm truthy_def property_key_def ok_outcome_def
        Let_def set_content_type_on_fresh res_write_def res_end_def log_def)
  have l2: "listen (web_ab False) (env_ab contentA contentB) \<lparr>req_url = ''/a/x.txt''\<rparr> fresh_response
           = Inr \<lparr> returned = True,
                   inst = (web_ab False)\<lparr>headers := [(''content-type'', ''text/plain'')]\<rparr>,
                   response = \<lparr> statusCode = 200, header_calls = [(''content-type'', ''text/plain'')],
                                written = [contentA], ended = True \<rparr>,
                   log_writes = [] \<rparr>"
    by (simp add: listen_def split_first_def g web_ab_def initial_def readFile_def gm truthy_def
        property_key_def ok_outcome_def Let_def set_content_type_on_fresh res_write_def
        res_end_def log_def normalize_rootDir_def mounts_of_def readFile_path_def env_ab_def
        existsSync_def stat_isFile_def readFileSync_def lk)
  from u l1 l2 show ?thesis by simp
qed

theorem C5_mount_a_serves_dirA_witness:
  "int (length ''from A'') \<le> 300000 \<and> int (length ''B'') \<le> 300000
   \<and> updateBuffer (web_ab True) (env_ab ''from A'' ''B'')
           = Inr ((web_ab True)\<lparr>buffers := [(''/a/x.txt'', ''from A''), (''/b/x.txt'', ''B'')]\<rparr>)
   \<and> listen ((web_ab True)\<lparr>buffers := [(''/a/x.txt'', ''from A''), (''/b/x.txt'', ''B'')]\<rparr>)
            env_empty \<lparr>req_url = ''/a/x.txt''\<rparr> fresh_response
           = Inr \<lparr> returned = True,
                   inst = (web_ab True)\<lparr>headers := [(''content-type'', ''text/plain'')],
                            buffers := [(''/a/x.txt'', ''from A''), (''/b/x.txt'', ''B'')]\<rparr>,
                   response = \<lparr> statusCode = 200, header_calls = [(''content-type'', ''text/plain'')],
                                written = [''from A''], ended = True \<rparr>,
                   log_writes = [] \<rparr>
   \<and> listen (web_ab False) (env_ab ''from A'' ''B'') \<lparr>req_url = ''/a/x.txt''\<rparr> fresh_response
           = Inr \<lparr> returned = True,
                   inst = (web_ab False)\<lparr>headers := [(''content-type'', ''text/plain'')]\<rparr>,
                   response = \<lparr> statusCode = 200, header_calls = [(''content-type'', ''text/plain'')],
                                written = [''from A''], ended = True \<rparr>,
                   log_writes = [] \<rparr>"
proof -
  have a: "int (length ''from A'') \<le> 300000" and b: "int (length ''B'') \<le> 300000"
    by simp_all
  from C5_mount_a_serves_dirA [OF a b, of env_empty] a b show ?thesis
    by simp
qed

end
